theory Spec2Isabelle
  imports Complex_Main "HOL-Library.Multiset"
begin

section \<open>Data model (types.ts)\<close>

text \<open>
  A word is a JavaScript string; the code only reads its length, indexes it and compares
  single letters for equality, so a word is a list over an arbitrary letter type \<open>'l\<close>
  (one element per UTF-16 code unit). Rows, columns and grid dimensions are integers.
  The optional field \<open>number\<close> of a placed word is an \<open>int option\<close>. Field names are
  those of types.ts, except where two interfaces share a name or a name is taken: \<open>id\<close>
  is \<open>wid\<close>, the \<open>row\<close> and \<open>col\<close> of a cell are \<open>cell_row\<close> and \<open>cell_col\<close>, and the
  fields of a clue entry carry the prefix \<open>c_\<close>.
\<close>

datatype Orientation = across | down

record 'l WordData =
  wid :: string
  word :: "'l list"
  clue :: string

record 'l PlacedWord = "'l WordData" +
  row :: int
  col :: int
  orientation :: Orientation
  number :: "int option"

record 'l GridCellData =
  cell_row :: int
  cell_col :: int
  char :: "'l option"
  clueNumber :: "int option"
  wordIds :: "string list"
  isValid :: bool
  isError :: bool

record 'l ClueGroup =
  c_number :: int
  c_clue :: string
  c_word :: "'l list"
  c_orientation :: Orientation

text \<open>The unit step of an orientation: \<open>dr = orientation === 'down' ? 1 : 0\<close> and
  \<open>dc = orientation === 'across' ? 1 : 0\<close>.\<close>

definition dr_of :: "Orientation \<Rightarrow> int" where
  "dr_of ori = (if ori = down then 1 else 0)"

definition dc_of :: "Orientation \<Rightarrow> int" where
  "dc_of ori = (if ori = across then 1 else 0)"

section \<open>Auto-layout (utils.ts, generateLayout)\<close>

subsection \<open>The occupied-cell map\<close>

text \<open>
  \<open>gridMap\<close> is a \<open>Map<string, string>\<close> keyed by \<open>`${r},${c}`\<close>; the key is
  injective on pairs of integers, so the map is modelled on pairs. Every stored value is a
  single letter, hence truthy: \<open>existing\<close> is truthy exactly when the key is present.
\<close>

type_synonym 'l gridMap = "int \<times> int \<Rightarrow> 'l option"

definition isOccupied :: "'l gridMap \<Rightarrow> int \<Rightarrow> int \<Rightarrow> bool" where
  "isOccupied gm r c = (gm (r, c) \<noteq> None)"

definition getChar :: "'l gridMap \<Rightarrow> int \<Rightarrow> int \<Rightarrow> 'l option" where
  "getChar gm r c = gm (r, c)"

subsection \<open>canPlace\<close>

definition diags :: "(int \<times> int) list" where
  "diags = [(-1, -1), (-1, 1), (1, -1), (1, 1)]"

text \<open>The body of the per-letter loop of \<open>canPlace\<close> at cell \<open>(r, c)\<close>: \<open>False\<close> where the
  source returns false, \<open>True\<close> where it goes on to the next letter.\<close>

definition canPlaceCell :: "'l gridMap \<Rightarrow> int \<Rightarrow> int \<Rightarrow> int \<Rightarrow> int \<Rightarrow> 'l \<Rightarrow> bool" where
  "canPlaceCell gm dr dc r c ch =
     (case getChar gm r c of
        Some existing \<Rightarrow> existing = ch
      | None \<Rightarrow>
          (let pDr = dc; pDc = dr in
           if isOccupied gm (r + pDr) (c + pDc) \<or> isOccupied gm (r - pDr) (c - pDc) then False
           else if isOccupied gm (r + 2 * pDr) (c + 2 * pDc) \<or> isOccupied gm (r - 2 * pDr) (c - 2 * pDc)
             then False
           else list_all (\<lambda>(ddr, ddc).
                  \<not> (isOccupied gm (r + ddr) (c + ddc) \<and>
                     \<not> isOccupied gm (r + ddr) c \<and> \<not> isOccupied gm r (c + ddc))) diags))"

text \<open>The loop \<open>for (i = 0; i < word.length; i++)\<close> returns false at the first letter that
  fails, so it passes exactly when every index passes.\<close>

definition canPlace ::
  "'l gridMap \<Rightarrow> int \<Rightarrow> int \<Rightarrow> 'l list \<Rightarrow> int \<Rightarrow> int \<Rightarrow> Orientation \<Rightarrow> bool" where
  "canPlace gm rows cols wd r c ori =
     (let dr = dr_of ori; dc = dc_of ori; n = int (length wd) in
      if r < 0 \<or> c < 0 then False
      else if ori = across \<and> c + n > cols then False
      else if ori = down \<and> r + n > rows then False
      else if \<not> list_all (\<lambda>i. canPlaceCell gm dr dc (r + int i * dr) (c + int i * dc) (wd ! i))
                 [0..<length wd] then False
      else if isOccupied gm (r - dr) (c - dc) then False
      else if isOccupied gm (r + n * dr) (c + n * dc) then False
      else True)"

subsection \<open>The layout state and placeWordInMap\<close>

record 'l LayoutState =
  gridMap :: "'l gridMap"
  placed :: "'l PlacedWord list"

definition placeWordInMap :: "'l LayoutState \<Rightarrow> 'l PlacedWord \<Rightarrow> 'l LayoutState" where
  "placeWordInMap st pw =
     (let dr = dr_of (orientation pw); dc = dc_of (orientation pw) in
      \<lparr> gridMap = fold (\<lambda>i m. m((row pw + int i * dr, col pw + int i * dc) \<mapsto> word pw ! i))
                      [0..<length (word pw)] (gridMap st),
        placed = placed st @ [pw] \<rparr>)"

text \<open>The object spread \<open>{ ...w, row, col, orientation }\<close>: a fresh record, no number yet.\<close>

definition mkPlaced :: "'l WordData \<Rightarrow> int \<Rightarrow> int \<Rightarrow> Orientation \<Rightarrow> 'l PlacedWord" where
  "mkPlaced w r c ori =
     \<lparr> wid = wid w, word = word w, clue = clue w,
       row = r, col = c, orientation = ori, number = None \<rparr>"

subsection \<open>The search for a crossing\<close>

text \<open>
  The three nested loops over \<open>pw of placed\<close>, \<open>j\<close> (letter of the new word) and \<open>k\<close>
  (letter of the placed word). Each returns \<open>Some\<close> as soon as \<open>bestPlacement\<close> is set
  (the \<open>break\<close>s of the source) and \<open>None\<close> when its range is exhausted.
\<close>

definition flip :: "Orientation \<Rightarrow> Orientation" where
  "flip ori = (if ori = across then down else across)"

fun scanK ::
  "'l gridMap \<Rightarrow> int \<Rightarrow> int \<Rightarrow> 'l WordData \<Rightarrow> 'l PlacedWord \<Rightarrow> nat \<Rightarrow> nat list \<Rightarrow> 'l PlacedWord option"
where
  "scanK gm rows cols w pw j [] = None"
| "scanK gm rows cols w pw j (k # ks) =
     (if word pw ! k = word w ! j then
        (let pDr = dr_of (orientation pw); pDc = dc_of (orientation pw);
             intersectR = row pw + int k * pDr;
             intersectC = col pw + int k * pDc;
             newOrientation = flip (orientation pw);
             nDr = dr_of newOrientation; nDc = dc_of newOrientation;
             startR = intersectR - int j * nDr;
             startC = intersectC - int j * nDc
         in if canPlace gm rows cols (word w) startR startC newOrientation
            then Some (mkPlaced w startR startC newOrientation)
            else scanK gm rows cols w pw j ks)
      else scanK gm rows cols w pw j ks)"

fun scanJ ::
  "'l gridMap \<Rightarrow> int \<Rightarrow> int \<Rightarrow> 'l WordData \<Rightarrow> 'l PlacedWord \<Rightarrow> nat list \<Rightarrow> 'l PlacedWord option"
where
  "scanJ gm rows cols w pw [] = None"
| "scanJ gm rows cols w pw (j # js) =
     (case scanK gm rows cols w pw j [0..<length (word pw)] of
        Some bp \<Rightarrow> Some bp
      | None \<Rightarrow> scanJ gm rows cols w pw js)"

fun scanPlaced ::
  "'l gridMap \<Rightarrow> int \<Rightarrow> int \<Rightarrow> 'l WordData \<Rightarrow> 'l PlacedWord list \<Rightarrow> 'l PlacedWord option"
where
  "scanPlaced gm rows cols w [] = None"
| "scanPlaced gm rows cols w (pw # pws) =
     (case scanJ gm rows cols w pw [0..<length (word w)] of
        Some bp \<Rightarrow> Some bp
      | None \<Rightarrow> scanPlaced gm rows cols w pws)"

definition findPlacement :: "int \<Rightarrow> int \<Rightarrow> 'l LayoutState \<Rightarrow> 'l WordData \<Rightarrow> 'l PlacedWord option" where
  "findPlacement rows cols st w = scanPlaced (gridMap st) rows cols w (placed st)"

subsection \<open>One pass over the unplaced words, and the retry loop\<close>

text \<open>
  \<open>for (i = 0; i < unplaced.length; i++)\<close> with \<open>unplaced.splice(i, 1); i--\<close> on success:
  \<open>kept\<close> is \<open>unplaced[0..i)\<close>, the last argument is \<open>unplaced[i..]\<close>, \<open>changed\<close> is the
  flag. The result is the state, the new \<open>unplaced\<close> and the flag.
\<close>

fun layoutPass ::
  "int \<Rightarrow> int \<Rightarrow> 'l LayoutState \<Rightarrow> 'l WordData list \<Rightarrow> bool \<Rightarrow> 'l WordData list
   \<Rightarrow> 'l LayoutState \<times> 'l WordData list \<times> bool"
where
  "layoutPass rows cols st kept changed [] = (st, kept, changed)"
| "layoutPass rows cols st kept changed (w # ws) =
     (case findPlacement rows cols st w of
        None \<Rightarrow> layoutPass rows cols st (kept @ [w]) changed ws
      | Some bestPlacement \<Rightarrow> layoutPass rows cols (placeWordInMap st bestPlacement) kept True ws)"

lemma layoutPass_length:
  "layoutPass rows cols st kept changed ws = (st', un', ch') \<Longrightarrow>
     length un' \<le> length kept + length ws \<and>
     (ch' \<and> \<not> changed \<longrightarrow> length un' < length kept + length ws)"
proof (induction ws arbitrary: st kept changed)
  case Nil
  then show ?case by auto
next
  case (Cons w ws)
  show ?case
  proof (cases "findPlacement rows cols st w")
    case None
    with Cons.prems have "layoutPass rows cols st (kept @ [w]) changed ws = (st', un', ch')"
      by simp
    from Cons.IH [OF this] show ?thesis by simp
  next
    case (Some bp)
    with Cons.prems have "layoutPass rows cols (placeWordInMap st bp) kept True ws = (st', un', ch')"
      by simp
    from Cons.IH [OF this] show ?thesis by simp
  qed
qed

text \<open>\<open>while (changed && unplaced.length > 0) { changed = false; for ... }\<close>\<close>

function retryLoop ::
  "int \<Rightarrow> int \<Rightarrow> 'l LayoutState \<Rightarrow> 'l WordData list \<Rightarrow> bool \<Rightarrow> 'l PlacedWord list"
where
  "retryLoop rows cols st unplaced changed =
     (if changed \<and> unplaced \<noteq> [] then
        (let pass = layoutPass rows cols st [] False unplaced
         in retryLoop rows cols (fst pass) (fst (snd pass)) (snd (snd pass)))
      else placed st)"
  by pat_completeness auto
termination
proof (relation "measure (\<lambda>(rows, cols, st, unplaced, changed).
                   2 * length unplaced + (if changed then 1 else 0))")
  fix rows cols :: int and st :: "'l LayoutState" and unplaced :: "'l WordData list"
    and changed :: bool and pass
  assume a: "changed \<and> unplaced \<noteq> []"
    and b: "pass = layoutPass rows cols st [] False unplaced"
  from b have "layoutPass rows cols st [] False unplaced = (fst pass, fst (snd pass), snd (snd pass))"
    by simp
  from layoutPass_length [OF this] a
  show "((rows, cols, fst pass, fst (snd pass), snd (snd pass)), (rows, cols, st, unplaced, changed))
        \<in> measure (\<lambda>(rows, cols, st, unplaced, changed).
                     2 * length unplaced + (if changed then 1 else 0))"
    by (cases pass) auto
qed simp

declare retryLoop.simps [simp del]

subsection \<open>generateLayout\<close>

text \<open>
  \<open>[...words].sort((a, b) => b.word.length - a.word.length)\<close> sorts a copy, longest first,
  and \<open>Array.prototype.sort\<close> is stable: a stable sort on the key \<open>- length\<close>. \<open>Math.floor(x / 2)\<close> is \<open>div 2\<close> on
  integers (rounding down, also for negative \<open>x\<close>).
\<close>

definition sortWords :: "'l WordData list \<Rightarrow> 'l WordData list" where
  "sortWords words = sort_key (\<lambda>w. - int (length (word w))) words"

definition generateLayout :: "'l WordData list \<Rightarrow> int \<Rightarrow> int \<Rightarrow> 'l PlacedWord list" where
  "generateLayout words rows cols =
     (case sortWords words of
        [] \<Rightarrow> []
      | firstWord # unplaced \<Rightarrow>
          (let st0 = \<lparr> gridMap = Map.empty, placed = [] \<rparr>;
               fr = rows div 2;
               fc = (cols - int (length (word firstWord))) div 2;
               st1 = (if fc \<ge> 0 then placeWordInMap st0 (mkPlaced firstWord fr fc across)
                      else placeWordInMap st0 (mkPlaced firstWord 0 0 across))
           in retryLoop rows cols st1 unplaced True))"

subsection \<open>generateLayout and the arrays it touches\<close>

text \<open>
  To see what \<open>generateLayout\<close> does to its argument, its arrays of word records are held in
  a store and reached by reference: \<open>words\<close> is the argument; \<open>[...words]\<close> allocates the
  new array \<open>sortedWords\<close> with the same elements, and \<open>.sort(...)\<close> then sorts that array
  in place; \<open>sortedWords.slice(1)\<close> allocates the new array \<open>unplaced\<close>, which
  \<open>unplaced.splice(i, 1)\<close> shortens in place during a pass. No statement of the function
  assigns to a field of a word record (every placement is built by an object spread, a
  new object), so the elements are values.
\<close>

datatype arrayRef = wordsRef | sortedWordsRef | unplacedRef

type_synonym 'l arrayStore = "arrayRef \<Rightarrow> 'l WordData list"

function retryLoop_store ::
  "int \<Rightarrow> int \<Rightarrow> 'l LayoutState \<Rightarrow> 'l arrayStore \<Rightarrow> bool \<Rightarrow> 'l PlacedWord list \<times> 'l arrayStore"
where
  "retryLoop_store rows cols st mem changed =
     (if changed \<and> mem unplacedRef \<noteq> [] then
        (let pass = layoutPass rows cols st [] False (mem unplacedRef)
         in retryLoop_store rows cols (fst pass) (mem(unplacedRef := fst (snd pass))) (snd (snd pass)))
      else (placed st, mem))"
  by pat_completeness auto
termination
proof (relation "measure (\<lambda>(rows, cols, st, mem, changed).
                   2 * length (mem unplacedRef) + (if changed then 1 else 0))")
  fix rows cols :: int and st :: "'l LayoutState" and mem :: "'l arrayStore"
    and changed :: bool and pass
  assume a: "changed \<and> mem unplacedRef \<noteq> []"
    and b: "pass = layoutPass rows cols st [] False (mem unplacedRef)"
  from b have "layoutPass rows cols st [] False (mem unplacedRef) = (fst pass, fst (snd pass), snd (snd pass))"
    by simp
  from layoutPass_length [OF this] a
  show "((rows, cols, fst pass, mem(unplacedRef := fst (snd pass)), snd (snd pass)),
         (rows, cols, st, mem, changed))
        \<in> measure (\<lambda>(rows, cols, st, mem, changed).
                     2 * length (mem unplacedRef) + (if changed then 1 else 0))"
    by (cases pass) auto
qed simp

declare retryLoop_store.simps [simp del]

definition generateLayout_store ::
  "'l arrayStore \<Rightarrow> int \<Rightarrow> int \<Rightarrow> 'l PlacedWord list \<times> 'l arrayStore" where
  "generateLayout_store mem rows cols =
     (let mem1 = mem(sortedWordsRef := mem wordsRef);
          mem2 = mem1(sortedWordsRef := sortWords (mem1 sortedWordsRef))
      in case mem2 sortedWordsRef of
           [] \<Rightarrow> ([], mem2)
         | firstWord # rest \<Rightarrow>
             (let st0 = \<lparr> gridMap = Map.empty, placed = [] \<rparr>;
                  fr = rows div 2;
                  fc = (cols - int (length (word firstWord))) div 2;
                  st1 = (if fc \<ge> 0 then placeWordInMap st0 (mkPlaced firstWord fr fc across)
                         else placeWordInMap st0 (mkPlaced firstWord 0 0 across));
                  mem3 = mem2(unplacedRef := rest)
              in retryLoop_store rows cols st1 mem3 True))"

subsection \<open>Notions for stating the properties of the layout\<close>

text \<open>The placement of the first (longest) word, as \<open>generateLayout\<close> computes it.\<close>

definition firstPlacement :: "'l WordData \<Rightarrow> int \<Rightarrow> int \<Rightarrow> 'l PlacedWord" where
  "firstPlacement firstWord rows cols =
     (if (cols - int (length (word firstWord))) div 2 \<ge> 0
      then mkPlaced firstWord (rows div 2) ((cols - int (length (word firstWord))) div 2) across
      else mkPlaced firstWord 0 0 across)"

text \<open>The word record a placement was made from (the fields the spread copies).\<close>

definition wordOf :: "'l PlacedWord \<Rightarrow> 'l WordData" where
  "wordOf pw = \<lparr> wid = wid pw, word = word pw, clue = clue pw \<rparr>"

text \<open>The \<open>i\<close>-th cell on the path of a placement, and what it means for two placements
  to cross: perpendicular orientations and a shared cell at which both have the same letter.\<close>

definition cellOf :: "'l PlacedWord \<Rightarrow> nat \<Rightarrow> int \<times> int" where
  "cellOf p i = (row p + int i * dr_of (orientation p), col p + int i * dc_of (orientation p))"

definition crosses :: "'l PlacedWord \<Rightarrow> 'l PlacedWord \<Rightarrow> bool" where
  "crosses p q =
     (orientation p \<noteq> orientation q \<and>
      (\<exists>j \<in> {0..<length (word p)}. \<exists>k \<in> {0..<length (word q)}.
          cellOf p j = cellOf q k \<and> word p ! j = word q ! k))"

text \<open>
  The candidate the search builds for letter \<open>j\<close> of the new word against letter \<open>k\<close> of the
  placed word \<open>pw\<close>, and all candidates in the order the three loops visit them: placed
  words in commit order, then \<open>j\<close>, then the matching \<open>k\<close>.
\<close>

definition candidate :: "'l WordData \<Rightarrow> 'l PlacedWord \<Rightarrow> nat \<Rightarrow> nat \<Rightarrow> 'l PlacedWord" where
  "candidate w pw j k =
     mkPlaced w
       (row pw + int k * dr_of (orientation pw) - int j * dr_of (flip (orientation pw)))
       (col pw + int k * dc_of (orientation pw) - int j * dc_of (flip (orientation pw)))
       (flip (orientation pw))"

definition candidates :: "'l PlacedWord list \<Rightarrow> 'l WordData \<Rightarrow> 'l PlacedWord list" where
  "candidates pws w =
     concat (map (\<lambda>pw.
       concat (map (\<lambda>j.
         map (candidate w pw j) (filter (\<lambda>k. word pw ! k = word w ! j) [0..<length (word pw)]))
         [0..<length (word w)]))
       pws)"

text \<open>\<open>canPlace\<close> applied to a candidate.\<close>

definition accepts :: "'l gridMap \<Rightarrow> int \<Rightarrow> int \<Rightarrow> 'l PlacedWord \<Rightarrow> bool" where
  "accepts gm rows cols p = canPlace gm rows cols (word p) (row p) (col p) (orientation p)"

text \<open>Every placement of a list but the first crosses one that stands before it.\<close>

definition crossingChain :: "'l PlacedWord list \<Rightarrow> bool" where
  "crossingChain ps = (\<forall>i. 0 < i \<and> i < length ps \<longrightarrow> (\<exists>i' < i. crosses (ps ! i) (ps ! i')))"

text \<open>
  The spec's measure for choosing among accepted candidates (section 4.3): the squared
  Euclidean distance from the centre of the placement to the geometric centre of the
  grid. \<open>generateLayout\<close> in utils.ts computes no distance; the formula is the one of the
  other revision of the function (its text follows the component in components/Grid.tsx):
  \<open>wordCenterR = startR + (w.word.length / 2) * nDr\<close>, \<open>centerR = rows / 2\<close>, likewise
  for columns, and \<open>dist\<close> the sum of the two squared differences. The divisions are
  exact, so the value is a rational number.
\<close>

definition spec_centerDist :: "int \<Rightarrow> int \<Rightarrow> 'l PlacedWord \<Rightarrow> rat" where
  "spec_centerDist rows cols p =
     (let wordCenterR = of_int (row p) + (of_nat (length (word p)) / 2) * of_int (dr_of (orientation p));
          wordCenterC = of_int (col p) + (of_nat (length (word p)) / 2) * of_int (dc_of (orientation p));
          centerR = of_int rows / 2;
          centerC = of_int cols / 2
      in (wordCenterR - centerR)\<^sup>2 + (wordCenterC - centerC)\<^sup>2)"

subsection \<open>canPlace with the strictGap flag (the other revision)\<close>

text \<open>
  The repository text also holds a second revision of \<open>generateLayout\<close> (it follows the
  component in components/Grid.tsx) whose \<open>canPlace\<close> takes a fifth parameter \<open>strictGap\<close>
  and runs the two-step check only under \<open>if (strictGap)\<close>. Everything else in that
  validator is the same text as in utils.ts.
\<close>

definition canPlaceCell_strictGap ::
  "'l gridMap \<Rightarrow> int \<Rightarrow> int \<Rightarrow> int \<Rightarrow> int \<Rightarrow> 'l \<Rightarrow> bool \<Rightarrow> bool" where
  "canPlaceCell_strictGap gm dr dc r c ch strictGap =
     (case getChar gm r c of
        Some existing \<Rightarrow> existing = ch
      | None \<Rightarrow>
          (let pDr = dc; pDc = dr in
           if isOccupied gm (r + pDr) (c + pDc) \<or> isOccupied gm (r - pDr) (c - pDc) then False
           else if strictGap \<and>
                   (isOccupied gm (r + 2 * pDr) (c + 2 * pDc) \<or> isOccupied gm (r - 2 * pDr) (c - 2 * pDc))
             then False
           else list_all (\<lambda>(ddr, ddc).
                  \<not> (isOccupied gm (r + ddr) (c + ddc) \<and>
                     \<not> isOccupied gm (r + ddr) c \<and> \<not> isOccupied gm r (c + ddc))) diags))"

definition canPlace_strictGap ::
  "'l gridMap \<Rightarrow> int \<Rightarrow> int \<Rightarrow> 'l list \<Rightarrow> int \<Rightarrow> int \<Rightarrow> Orientation \<Rightarrow> bool \<Rightarrow> bool" where
  "canPlace_strictGap gm rows cols wd r c ori strictGap =
     (let dr = dr_of ori; dc = dc_of ori; n = int (length wd) in
      if r < 0 \<or> c < 0 then False
      else if ori = across \<and> c + n > cols then False
      else if ori = down \<and> r + n > rows then False
      else if \<not> list_all (\<lambda>i. canPlaceCell_strictGap gm dr dc (r + int i * dr) (c + int i * dc) (wd ! i) strictGap)
                 [0..<length wd] then False
      else if isOccupied gm (r - dr) (c - dc) then False
      else if isOccupied gm (r + n * dr) (c + n * dc) then False
      else True)"

section \<open>The grid model (utils.ts, createEmptyGrid, calculateGrid, validatePlacement)\<close>

text \<open>
  Reading \<open>grid[r][c].char\<close> throws a TypeError when \<open>grid[r]\<close> or \<open>grid[r][c]\<close> is
  undefined, that is, when the index is outside the array.
\<close>

datatype js_error = TypeError

definition gridCell :: "'l GridCellData list list \<Rightarrow> int \<Rightarrow> int \<Rightarrow> js_error + 'l GridCellData" where
  "gridCell grid r c =
     (if 0 \<le> r \<and> r < int (length grid) then
        (if 0 \<le> c \<and> c < int (length (grid ! nat r)) then Inr (grid ! nat r ! nat c)
         else Inl TypeError)
      else Inl TypeError)"

subsection \<open>validatePlacement\<close>

fun validateLoop ::
  "'l GridCellData list list \<Rightarrow> 'l list \<Rightarrow> int \<Rightarrow> int \<Rightarrow> int \<Rightarrow> int \<Rightarrow> nat list \<Rightarrow> js_error + bool"
where
  "validateLoop grid wd r c dr dc [] = Inr True"
| "validateLoop grid wd r c dr dc (i # is) =
     (case gridCell grid (r + int i * dr) (c + int i * dc) of
        Inl e \<Rightarrow> Inl e
      | Inr cell \<Rightarrow>
          if char cell \<noteq> None \<and> char cell \<noteq> Some (wd ! i) then Inr False
          else validateLoop grid wd r c dr dc is)"

definition validatePlacement ::
  "'l GridCellData list list \<Rightarrow> 'l list \<Rightarrow> int \<Rightarrow> int \<Rightarrow> Orientation \<Rightarrow> int \<Rightarrow> int \<Rightarrow> js_error + bool"
where
  "validatePlacement grid wd r c ori rows cols =
     (let dr = dr_of ori; dc = dc_of ori in
      if r < 0 \<or> c < 0 then Inr False
      else if r + (int (length wd) - 1) * dr \<ge> rows then Inr False
      else if c + (int (length wd) - 1) * dc \<ge> cols then Inr False
      else validateLoop grid wd r c dr dc [0..<length wd])"

text \<open>The full extent of a placement lies within \<open>[0, rows) \<times> [0, cols)\<close>: every cell
  the word covers is a cell of the grid.\<close>

definition extentInGrid :: "int \<Rightarrow> int \<Rightarrow> 'l list \<Rightarrow> int \<Rightarrow> int \<Rightarrow> Orientation \<Rightarrow> bool" where
  "extentInGrid rows cols wd r c ori =
     list_all (\<lambda>i. 0 \<le> r + int i * dr_of ori \<and> r + int i * dr_of ori < rows \<and>
                    0 \<le> c + int i * dc_of ori \<and> c + int i * dc_of ori < cols)
       [0..<length wd]"

subsection \<open>createEmptyGrid\<close>

definition emptyCell :: "int \<Rightarrow> int \<Rightarrow> 'l GridCellData" where
  "emptyCell r c =
     \<lparr> cell_row = r, cell_col = c, char = None, clueNumber = None, wordIds = [],
       isValid = True, isError = False \<rparr>"

text \<open>\<open>for (r = 0; r < rows; r++)\<close> visits \<open>0, ..., rows - 1\<close>; no row for \<open>rows \<le> 0\<close>.\<close>

definition createEmptyGrid :: "int \<Rightarrow> int \<Rightarrow> 'l GridCellData list list" where
  "createEmptyGrid rows cols = map (\<lambda>r. map (\<lambda>c. emptyCell r c) [0..cols - 1]) [0..rows - 1]"

subsection \<open>calculateGrid\<close>

text \<open>
  \<open>const cell = grid[r][c]\<close> followed by assignments to the fields of \<open>cell\<close> mutates the
  cell in place: the grid with the cell at \<open>(r, c)\<close> replaced. Both call sites guard or
  generate \<open>r\<close> and \<open>c\<close> inside \<open>[0, rows) \<times> [0, cols)\<close> on a grid of that size, so the
  read never leaves the array.
\<close>

definition updCell ::
  "'l GridCellData list list \<Rightarrow> int \<Rightarrow> int \<Rightarrow> ('l GridCellData \<Rightarrow> 'l GridCellData)
   \<Rightarrow> 'l GridCellData list list" where
  "updCell grid r c f = grid[nat r := (grid ! nat r)[nat c := f (grid ! nat r ! nat c)]]"

text \<open>The collision logic and the write of one letter into a cell.\<close>

definition writeLetter :: "'l \<Rightarrow> string \<Rightarrow> 'l GridCellData \<Rightarrow> 'l GridCellData" where
  "writeLetter ch ident cell =
     cell \<lparr> isError := (if char cell \<noteq> None \<and> char cell \<noteq> Some ch then True else isError cell),
            char := Some ch,
            wordIds := wordIds cell @ [ident] \<rparr>"

definition placeLetter ::
  "int \<Rightarrow> int \<Rightarrow> 'l PlacedWord \<Rightarrow> nat \<Rightarrow> 'l GridCellData list list \<Rightarrow> 'l GridCellData list list" where
  "placeLetter rows cols pw i grid =
     (let dr = dr_of (orientation pw); dc = dc_of (orientation pw);
          r = row pw + int i * dr;
          c = col pw + int i * dc
      in if r \<ge> 0 \<and> r < rows \<and> c \<ge> 0 \<and> c < cols
         then updCell grid r c (writeLetter (word pw ! i) (wid pw))
         else grid)"

definition placeLetters ::
  "int \<Rightarrow> int \<Rightarrow> 'l PlacedWord list \<Rightarrow> 'l GridCellData list list \<Rightarrow> 'l GridCellData list list" where
  "placeLetters rows cols placedWords grid =
     fold (\<lambda>pw g. fold (placeLetter rows cols pw) [0..<length (word pw)] g) placedWords grid"

text \<open>
  The numbering pass. Its state: the counter, the clue list, the grid, and the array
  \<open>placedWords\<close> itself, whose elements the pass writes to (\<open>w.number = currentNumber\<close>).
\<close>

record 'l NumberingState =
  currentNumber :: int
  clues :: "'l ClueGroup list"
  ngrid :: "'l GridCellData list list"
  nplaced :: "'l PlacedWord list"

definition mkClue :: "int \<Rightarrow> 'l PlacedWord \<Rightarrow> 'l ClueGroup" where
  "mkClue n w = \<lparr> c_number = n, c_clue = clue w, c_word = word w, c_orientation = orientation w \<rparr>"

definition numberCell :: "int \<Rightarrow> int \<Rightarrow> 'l NumberingState \<Rightarrow> 'l NumberingState" where
  "numberCell r c s =
     (let wordsStartingHere = filter (\<lambda>w. row w = r \<and> col w = c) (nplaced s) in
      if length wordsStartingHere > 0 then
        \<lparr> currentNumber = currentNumber s + 1,
          clues = clues s @ map (mkClue (currentNumber s)) wordsStartingHere,
          ngrid = updCell (ngrid s) r c (\<lambda>cell. cell \<lparr> clueNumber := Some (currentNumber s) \<rparr>),
          nplaced = map (\<lambda>w. if row w = r \<and> col w = c then w \<lparr> number := Some (currentNumber s) \<rparr> else w)
                      (nplaced s) \<rparr>
      else s)"

definition numberCells :: "int \<Rightarrow> int \<Rightarrow> 'l NumberingState \<Rightarrow> 'l NumberingState" where
  "numberCells rows cols s =
     fold (\<lambda>r s1. fold (\<lambda>c s2. numberCell r c s2) [0..cols - 1] s1) [0..rows - 1] s"

text \<open>
  The result of \<open>calculateGrid\<close>: the returned \<open>grid\<close> and \<open>clues\<close>, and the argument array
  as the call leaves it. \<open>clues.sort((a, b) => a.number - b.number)\<close> is a stable sort.
\<close>

record 'l GridResult =
  r_grid :: "'l GridCellData list list"
  r_clues :: "'l ClueGroup list"
  r_placedWords :: "'l PlacedWord list"

definition calculateGrid :: "'l PlacedWord list \<Rightarrow> int \<Rightarrow> int \<Rightarrow> 'l GridResult" where
  "calculateGrid placedWords rows cols =
     (let grid0 = createEmptyGrid rows cols;
          grid1 = placeLetters rows cols placedWords grid0;
          s = numberCells rows cols
                \<lparr> currentNumber = 1, clues = [], ngrid = grid1, nplaced = placedWords \<rparr>
      in \<lparr> r_grid = ngrid s, r_clues = sort_key c_number (clues s), r_placedWords = nplaced s \<rparr>)"

subsection \<open>Notions for stating the properties of the grid model\<close>

text \<open>A grid of \<open>rows\<close> rows of \<open>cols\<close> cells each, a cell position inside the grid, and the
  cell of a grid at a position.\<close>

definition gridShape :: "int \<Rightarrow> int \<Rightarrow> 'l GridCellData list list \<Rightarrow> bool" where
  "gridShape rows cols g = (length g = nat rows \<and> (\<forall>rw \<in> set g. length rw = nat cols))"

definition inGrid :: "int \<Rightarrow> int \<Rightarrow> int \<Rightarrow> int \<Rightarrow> bool" where
  "inGrid rows cols r c = (0 \<le> r \<and> r < rows \<and> 0 \<le> c \<and> c < cols)"

definition cellAt :: "'l GridCellData list list \<Rightarrow> int \<Rightarrow> int \<Rightarrow> 'l GridCellData" where
  "cellAt g r c = g ! nat r ! nat c"


text \<open>The cells of the grid in the order the numbering pass visits them (row-major).\<close>

definition rowMajor :: "int \<Rightarrow> int \<Rightarrow> (int \<times> int) list" where
  "rowMajor rows cols = concat (map (\<lambda>r. map (\<lambda>c. (r, c)) [0..cols - 1]) [0..rows - 1])"

text \<open>A cell is an origin cell when some placement starts there; the origin cells of the
  grid, in row-major order.\<close>

definition isOriginOf :: "'l PlacedWord list \<Rightarrow> int \<times> int \<Rightarrow> bool" where
  "isOriginOf pws x = list_ex (\<lambda>w. row w = fst x \<and> col w = snd x) pws"

definition originCells :: "'l PlacedWord list \<Rightarrow> int \<Rightarrow> int \<Rightarrow> (int \<times> int) list" where
  "originCells pws rows cols = filter (isOriginOf pws) (rowMajor rows cols)"

text \<open>The clue entries of the placements anchored at a cell, and the entries for a list of
  cells numbered consecutively from \<open>n\<close>.\<close>

definition cluesFor :: "'l PlacedWord list \<Rightarrow> int \<Rightarrow> int \<times> int \<Rightarrow> 'l ClueGroup list" where
  "cluesFor pws n x = map (mkClue n) (filter (\<lambda>w. row w = fst x \<and> col w = snd x) pws)"

fun numberedClues :: "'l PlacedWord list \<Rightarrow> int \<Rightarrow> (int \<times> int) list \<Rightarrow> 'l ClueGroup list" where
  "numberedClues pws n [] = []"
| "numberedClues pws n (x # xs) = cluesFor pws n x @ numberedClues pws (n + 1) xs"

text \<open>The number a cell gets when the cells of a list are numbered consecutively from \<open>n\<close>.\<close>

fun numberOf :: "(int \<times> int) list \<Rightarrow> int \<Rightarrow> int \<times> int \<Rightarrow> int option" where
  "numberOf [] n x = None"
| "numberOf (y # ys) n x = (if x = y then Some n else numberOf ys (n + 1) x)"

text \<open>A placement with its number cleared: two placements with equal images differ at
  most in \<open>number\<close>. Then the array and a cell after numbering the cells of a list
  consecutively from \<open>n\<close>, and the grid after the letter pass.\<close>

definition eraseNumber :: "'l PlacedWord \<Rightarrow> 'l PlacedWord" where
  "eraseNumber w = w \<lparr> number := None \<rparr>"

definition setNumbers :: "(int \<times> int) list \<Rightarrow> int \<Rightarrow> 'l PlacedWord list \<Rightarrow> 'l PlacedWord list" where
  "setNumbers os n pws =
     map (\<lambda>w. case numberOf os n (row w, col w) of Some m \<Rightarrow> w \<lparr> number := Some m \<rparr> | None \<Rightarrow> w) pws"

definition numberedCell ::
  "(int \<times> int) list \<Rightarrow> int \<Rightarrow> 'l GridCellData list list \<Rightarrow> int \<Rightarrow> int \<Rightarrow> 'l GridCellData" where
  "numberedCell os n g r c =
     (case numberOf os n (r, c) of
        Some m \<Rightarrow> (cellAt g r c) \<lparr> clueNumber := Some m \<rparr>
      | None \<Rightarrow> cellAt g r c)"

definition lettersGrid :: "'l PlacedWord list \<Rightarrow> int \<Rightarrow> int \<Rightarrow> 'l GridCellData list list" where
  "lettersGrid pws rows cols = placeLetters rows cols pws (createEmptyGrid rows cols)"


section \<open>Properties of the layout\<close>

subsection \<open>The result holds at most the input words, the longest first\<close>

lemma wordOf_mkPlaced [simp]: "wordOf (mkPlaced w r c ori) = w"
  by (simp add: wordOf_def mkPlaced_def)

lemma placed_placeWordInMap [simp]: "placed (placeWordInMap st pw) = placed st @ [pw]"
  by (simp add: placeWordInMap_def Let_def)

lemma scanK_Some:
  "scanK gm rows cols w pw j ks = Some bp \<Longrightarrow>
     \<exists>k \<in> set ks. word pw ! k = word w ! j \<and>
       bp = mkPlaced w (row pw + int k * dr_of (orientation pw) - int j * dr_of (flip (orientation pw)))
                       (col pw + int k * dc_of (orientation pw) - int j * dc_of (flip (orientation pw)))
                       (flip (orientation pw)) \<and>
       canPlace gm rows cols (word w) (row bp) (col bp) (orientation bp)"
  by (induction ks) (auto simp: Let_def mkPlaced_def split: if_splits)

lemma scanJ_Some:
  "scanJ gm rows cols w pw js = Some bp \<Longrightarrow>
     \<exists>j \<in> set js. scanK gm rows cols w pw j [0..<length (word pw)] = Some bp"
  by (induction js) (auto split: option.splits)

lemma scanPlaced_Some:
  "scanPlaced gm rows cols w pws = Some bp \<Longrightarrow>
     \<exists>pw \<in> set pws. scanJ gm rows cols w pw [0..<length (word w)] = Some bp"
  by (induction pws) (auto split: option.splits)

lemma findPlacement_wordOf: "findPlacement rows cols st w = Some bp \<Longrightarrow> wordOf bp = w"
  unfolding findPlacement_def
  by (auto dest!: scanPlaced_Some scanJ_Some scanK_Some)

lemma layoutPass_mset:
  "layoutPass rows cols st kept changed ws = (st', un', ch') \<Longrightarrow>
     mset (map wordOf (placed st')) + mset un' = mset (map wordOf (placed st)) + mset kept + mset ws"
proof (induction ws arbitrary: st kept changed)
  case Nil
  then show ?case by auto
next
  case (Cons w ws)
  show ?case
  proof (cases "findPlacement rows cols st w")
    case None
    with Cons.prems have "layoutPass rows cols st (kept @ [w]) changed ws = (st', un', ch')"
      by simp
    from Cons.IH [OF this] show ?thesis by simp
  next
    case (Some bp)
    with Cons.prems have "layoutPass rows cols (placeWordInMap st bp) kept True ws = (st', un', ch')"
      by simp
    from Cons.IH [OF this] findPlacement_wordOf [OF Some] show ?thesis by simp
  qed
qed

lemma retryLoop_stop:
  "\<not> (changed \<and> unplaced \<noteq> []) \<Longrightarrow> retryLoop rows cols st unplaced changed = placed st"
  using retryLoop.simps [of rows cols st unplaced changed] by auto

lemma retryLoop_step:
  "changed \<Longrightarrow> unplaced \<noteq> [] \<Longrightarrow> layoutPass rows cols st [] False unplaced = (st', un', ch') \<Longrightarrow>
     retryLoop rows cols st unplaced changed = retryLoop rows cols st' un' ch'"
  using retryLoop.simps [of rows cols st unplaced changed] by (simp add: Let_def)

lemma retryLoop_mset:
  "mset (map wordOf (retryLoop rows cols st unplaced changed))
     \<subseteq># mset (map wordOf (placed st)) + mset unplaced"
proof (induction rows cols st unplaced changed rule: retryLoop.induct)
  case (1 rows cols st unplaced changed)
  show ?case
  proof (cases "changed \<and> unplaced \<noteq> []")
    case True
    define pass where "pass = layoutPass rows cols st [] False unplaced"
    have eq: "layoutPass rows cols st [] False unplaced = (fst pass, fst (snd pass), snd (snd pass))"
      by (simp add: pass_def)
    have "mset (map wordOf (retryLoop rows cols (fst pass) (fst (snd pass)) (snd (snd pass))))
            \<subseteq># mset (map wordOf (placed (fst pass))) + mset (fst (snd pass))"
      using "1.IH" [OF True pass_def] .
    also have "\<dots> = mset (map wordOf (placed st)) + mset unplaced"
      using layoutPass_mset [OF eq] by simp
    finally show ?thesis
      using True retryLoop_step [OF _ _ eq, of changed] by simp
  next
    case False
    then show ?thesis by (simp add: retryLoop_stop)
  qed
qed

lemma generateLayout_mset:
  "mset (map wordOf (generateLayout words rows cols)) \<subseteq># mset words"
proof (cases "sortWords words")
  case Nil
  then show ?thesis by (simp add: generateLayout_def)
next
  case (Cons firstWord unplaced)
  have m: "mset words = mset (firstWord # unplaced)"
    using Cons [symmetric] by (simp add: sortWords_def)
  have "generateLayout words rows cols =
          retryLoop rows cols (placeWordInMap \<lparr> gridMap = Map.empty, placed = [] \<rparr>
             (mkPlaced firstWord (if (cols - int (length (word firstWord))) div 2 \<ge> 0 then rows div 2 else 0)
                (if (cols - int (length (word firstWord))) div 2 \<ge> 0 then (cols - int (length (word firstWord))) div 2 else 0) across))
             unplaced True" (is "_ = retryLoop _ _ ?st1 _ _")
    by (simp add: generateLayout_def Cons Let_def)
  moreover have "mset (map wordOf (retryLoop rows cols ?st1 unplaced True))
      \<subseteq># mset (map wordOf (placed ?st1)) + mset unplaced"
    by (rule retryLoop_mset)
  ultimately show ?thesis
    by (simp add: m)
qed

text \<open>
  Claim C8. \<open>generateLayout\<close> is a total function (its retry loop terminates, so it never
  fails to return); the words of the placements it returns form a sub-multiset of the input
  words (at most one placement per input word), hence the result is no longer than the
  input; on the empty list it returns the empty list.
\<close>

theorem generateLayout_at_most_input:
  "mset (map wordOf (generateLayout words rows cols)) \<subseteq># mset words \<and>
   length (generateLayout words rows cols) \<le> length words \<and>
   generateLayout [] rows cols = []"
proof -
  have a: "mset (map wordOf (generateLayout words rows cols)) \<subseteq># mset words"
    by (rule generateLayout_mset)
  have "size (mset (map wordOf (generateLayout words rows cols))) \<le> size (mset words)"
    by (rule size_mset_mono [OF a])
  then have b: "length (generateLayout words rows cols) \<le> length words"
    by simp
  have c: "generateLayout [] rows cols = []"
    by (simp add: generateLayout_def sortWords_def)
  from a b c show ?thesis by blast
qed

lemma layoutPass_placed_prefix:
  "layoutPass rows cols st kept changed ws = (st', un', ch') \<Longrightarrow> \<exists>ys. placed st' = placed st @ ys"
proof (induction ws arbitrary: st kept changed)
  case Nil
  then show ?case by auto
next
  case (Cons w ws)
  show ?case
  proof (cases "findPlacement rows cols st w")
    case None
    with Cons.prems have "layoutPass rows cols st (kept @ [w]) changed ws = (st', un', ch')"
      by simp
    from Cons.IH [OF this] show ?thesis .
  next
    case (Some bp)
    with Cons.prems have "layoutPass rows cols (placeWordInMap st bp) kept True ws = (st', un', ch')"
      by simp
    from Cons.IH [OF this] show ?thesis by auto
  qed
qed

lemma retryLoop_placed_prefix:
  "\<exists>ys. retryLoop rows cols st unplaced changed = placed st @ ys"
proof (induction rows cols st unplaced changed rule: retryLoop.induct)
  case (1 rows cols st unplaced changed)
  show ?case
  proof (cases "changed \<and> unplaced \<noteq> []")
    case True
    define pass where "pass = layoutPass rows cols st [] False unplaced"
    have eq: "layoutPass rows cols st [] False unplaced = (fst pass, fst (snd pass), snd (snd pass))"
      by (simp add: pass_def)
    from "1.IH" [OF True pass_def] obtain ys where
      "retryLoop rows cols (fst pass) (fst (snd pass)) (snd (snd pass)) = placed (fst pass) @ ys"
      by blast
    moreover from layoutPass_placed_prefix [OF eq] obtain zs where "placed (fst pass) = placed st @ zs"
      by blast
    ultimately show ?thesis
      using True retryLoop_step [OF _ _ eq, of changed] by simp
  next
    case False
    then show ?thesis by (simp add: retryLoop_stop)
  qed
qed

lemma generateLayout_Cons:
  assumes "sortWords words = firstWord # unplaced"
  shows "generateLayout words rows cols =
     retryLoop rows cols (placeWordInMap \<lparr> gridMap = Map.empty, placed = [] \<rparr>
        (firstPlacement firstWord rows cols)) unplaced True"
  using assms by (simp add: generateLayout_def Let_def firstPlacement_def)

lemma sortWords_hd_longest:
  assumes "sortWords words = firstWord # unplaced"
  shows "firstWord \<in> set words \<and> (\<forall>w \<in> set words. length (word w) \<le> length (word firstWord))"
proof -
  have s: "set (firstWord # unplaced) = set words"
    using assms [symmetric] by (simp add: sortWords_def)
  have "sorted (map (\<lambda>w. - int (length (word w))) (firstWord # unplaced))"
    using assms [symmetric] by (simp add: sortWords_def)
  then have "\<forall>w \<in> set unplaced. length (word w) \<le> length (word firstWord)"
    by auto
  with s show ?thesis by auto
qed

lemma generateLayout_first_general:
  assumes "words \<noteq> []"
  shows "\<exists>p ps. generateLayout words rows cols = p # ps \<and>
           wordOf p \<in> set words \<and>
           (\<forall>w \<in> set words. length (word w) \<le> length (word p)) \<and>
           orientation p = across \<and>
           (if (cols - int (length (word p))) div 2 \<ge> 0
            then row p = rows div 2 \<and> col p = (cols - int (length (word p))) div 2
            else row p = 0 \<and> col p = 0)"
proof -
  from assms have "sortWords words \<noteq> []"
    by (metis sortWords_def length_sort length_0_conv)
  then obtain firstWord unplaced where sw: "sortWords words = firstWord # unplaced"
    by (cases "sortWords words") auto
  define p where "p = firstPlacement firstWord rows cols"
  obtain ys where "generateLayout words rows cols = [p] @ ys"
    using retryLoop_placed_prefix [of rows cols
        "placeWordInMap \<lparr> gridMap = Map.empty, placed = [] \<rparr> p" unplaced True]
    by (auto simp: generateLayout_Cons [OF sw] p_def)
  then have g: "generateLayout words rows cols = p # ys" by simp
  have w: "wordOf p = firstWord" "word p = word firstWord"
    by (simp_all add: p_def firstPlacement_def mkPlaced_def wordOf_def)
  have o: "orientation p = across"
    by (simp add: p_def firstPlacement_def mkPlaced_def)
  have rc: "if (cols - int (length (word p))) div 2 \<ge> 0
            then row p = rows div 2 \<and> col p = (cols - int (length (word p))) div 2
            else row p = 0 \<and> col p = 0"
    unfolding w by (simp add: p_def firstPlacement_def mkPlaced_def)
  from g w o rc sortWords_hd_longest [OF sw] show ?thesis
    by auto
qed

lemma generateLayout_single:
  "generateLayout [w] rows cols = [firstPlacement w rows cols]"
proof -
  have "sortWords [w] = [w]"
    by (simp add: sortWords_def)
  from generateLayout_Cons [OF this] show ?thesis
    by (simp add: retryLoop_stop)
qed

theorem generateLayout_at_most_input_witness:
  "length (generateLayout [\<lparr>wid = ''1'', word = ''REACT'', clue = ''ui''\<rparr>,
                           \<lparr>wid = ''2'', word = ''STATE'', clue = ''data''\<rparr>] 15 15) \<le> 2 \<and>
   generateLayout ([] :: char WordData list) 15 15 = []"
proof -
  have "length [\<lparr>wid = ''1'', word = ''REACT'', clue = ''ui''\<rparr>,
                \<lparr>wid = ''2'', word = ''STATE'', clue = ''data''\<rparr>] = 2"
    by simp
  with generateLayout_at_most_input
          [of "[\<lparr>wid = ''1'', word = ''REACT'', clue = ''ui''\<rparr>,
               \<lparr>wid = ''2'', word = ''STATE'', clue = ''data''\<rparr>]" 15 15]
  show ?thesis
    by metis
qed

text \<open>
  Claim C7. For a non-empty word list the first placement returned is made from an input
  word of maximal length, lies across, and sits at row \<open>rows div 2\<close>, column
  \<open>(cols - length) div 2\<close>, or at row 0, column 0 when that column is negative. For the
  single word CAT on a 15 by 15 grid the result is exactly one placement, across, row 7,
  column 6.
\<close>

theorem generateLayout_first:
  "(words \<noteq> [] \<longrightarrow>
      (\<exists>p ps. generateLayout words rows cols = p # ps \<and>
           wordOf p \<in> set words \<and>
           (\<forall>w \<in> set words. length (word w) \<le> length (word p)) \<and>
           orientation p = across \<and>
           (if (cols - int (length (word p))) div 2 \<ge> 0
            then row p = rows div 2 \<and> col p = (cols - int (length (word p))) div 2
            else row p = 0 \<and> col p = 0))) \<and>
   generateLayout [\<lparr>wid = i, word = ''CAT'', clue = cl\<rparr>] 15 15 =
     [\<lparr>wid = i, word = ''CAT'', clue = cl, row = 7, col = 6, orientation = across, number = None\<rparr>]"
proof -
  have "generateLayout [\<lparr>wid = i, word = ''CAT'', clue = cl\<rparr>] 15 15 =
     [\<lparr>wid = i, word = ''CAT'', clue = cl, row = 7, col = 6, orientation = across, number = None\<rparr>]"
    by (simp add: generateLayout_single firstPlacement_def mkPlaced_def)
  with generateLayout_first_general [of words rows cols] show ?thesis
    by blast
qed

theorem generateLayout_first_witness:
  "[\<lparr>wid = ''1'', word = ''REACT'', clue = ''ui''\<rparr>, \<lparr>wid = ''2'', word = ''TYPESCRIPT'', clue = ''lang''\<rparr>] \<noteq> [] \<and>
   (\<exists>p ps. generateLayout [\<lparr>wid = ''1'', word = ''REACT'', clue = ''ui''\<rparr>,
                               \<lparr>wid = ''2'', word = ''TYPESCRIPT'', clue = ''lang''\<rparr>] 15 15 = p # ps \<and>
      word p = ''TYPESCRIPT'' \<and> orientation p = across \<and> row p = 7 \<and> col p = 2)"
proof -
  let ?ws = "[\<lparr>wid = ''1'', word = ''REACT'', clue = ''ui''\<rparr>, \<lparr>wid = ''2'', word = ''TYPESCRIPT'', clue = ''lang''\<rparr>]"
  have ne: "?ws \<noteq> []" by simp
  with generateLayout_first [of "?ws" 15 15 "[]" "[]"]
  obtain p ps where g: "generateLayout ?ws 15 15 = p # ps"
    and m: "wordOf p \<in> set ?ws"
    and l: "\<forall>w \<in> set ?ws. length (word w) \<le> length (word p)"
    and o: "orientation p = across"
    and rc: "if (15 - int (length (word p))) div 2 \<ge> 0
            then row p = 15 div 2 \<and> col p = (15 - int (length (word p))) div 2
            else row p = 0 \<and> col p = 0"
    by blast
  from m l have w: "word p = ''TYPESCRIPT''"
    by (auto simp: wordOf_def)
  from rc have "row p = 7 \<and> col p = 2"
    unfolding w by simp
  with g w o ne show ?thesis by blast
qed

subsection \<open>The search as a scan of the candidate list\<close>

lemma find_append_case:
  "find P (xs @ ys) = (case find P xs of Some x \<Rightarrow> Some x | None \<Rightarrow> find P ys)"
  by (induction xs) auto

lemma scanK_find:
  "scanK gm rows cols w pw j ks =
     find (accepts gm rows cols) (map (candidate w pw j) (filter (\<lambda>k. word pw ! k = word w ! j) ks))"
  by (induction ks) (auto simp: Let_def accepts_def candidate_def mkPlaced_def)

lemma scanJ_find:
  "scanJ gm rows cols w pw js =
     find (accepts gm rows cols)
       (concat (map (\<lambda>j. map (candidate w pw j)
                  (filter (\<lambda>k. word pw ! k = word w ! j) [0..<length (word pw)])) js))"
  by (induction js) (auto simp: scanK_find find_append_case split: option.splits)

lemma scanPlaced_find:
  "scanPlaced gm rows cols w pws = find (accepts gm rows cols) (candidates pws w)"
  by (induction pws) (auto simp: scanJ_find find_append_case candidates_def split: option.splits)

lemma findPlacement_find:
  "findPlacement rows cols st w = find (accepts (gridMap st) rows cols) (candidates (placed st) w)"
  by (simp add: findPlacement_def scanPlaced_find)

lemma candidate_crosses:
  assumes "j < length (word w)" "k < length (word pw)" "word pw ! k = word w ! j"
  shows "crosses (candidate w pw j k) pw"
proof -
  have o: "orientation (candidate w pw j k) \<noteq> orientation pw"
    by (simp add: candidate_def mkPlaced_def flip_def)
  have c: "cellOf (candidate w pw j k) j = cellOf pw k"
    by (simp add: candidate_def mkPlaced_def cellOf_def)
  have l: "word (candidate w pw j k) = word w"
    by (simp add: candidate_def mkPlaced_def)
  have "j \<in> {0..<length (word (candidate w pw j k))}" "k \<in> {0..<length (word pw)}"
    using assms l by simp_all
  moreover have "word (candidate w pw j k) ! j = word pw ! k"
    using assms l by simp
  ultimately show ?thesis
    unfolding crosses_def using o c by blast
qed

lemma candidates_cross:
  assumes "p \<in> set (candidates pws w)"
  shows "\<exists>pw \<in> set pws. crosses p pw"
proof -
  from assms obtain pw j k where "pw \<in> set pws" "j < length (word w)" "k < length (word pw)"
      "word pw ! k = word w ! j" "p = candidate w pw j k"
    by (auto simp: candidates_def)
  with candidate_crosses [of j w k pw] show ?thesis by blast
qed

lemma findPlacement_Some:
  assumes "findPlacement rows cols st w = Some bp"
  shows "bp \<in> set (candidates (placed st) w) \<and> accepts (gridMap st) rows cols bp"
  using assms unfolding findPlacement_find
  by (auto simp: find_Some_iff)

subsection \<open>Invariants of the pass and of the retry loop\<close>

lemma layoutPass_invariant:
  assumes step: "\<And>st w bp. I st \<Longrightarrow> findPlacement rows cols st w = Some bp \<Longrightarrow> I (placeWordInMap st bp)"
  shows "I st \<Longrightarrow> layoutPass rows cols st kept changed ws = (st', un', ch') \<Longrightarrow> I st'"
proof (induction ws arbitrary: st kept changed)
  case Nil
  then show ?case by simp
next
  case (Cons w ws)
  show ?case
  proof (cases "findPlacement rows cols st w")
    case None
    with Cons.prems have "layoutPass rows cols st (kept @ [w]) changed ws = (st', un', ch')"
      by simp
    from Cons.IH [OF Cons.prems(1) this] show ?thesis .
  next
    case (Some bp)
    with Cons.prems have "layoutPass rows cols (placeWordInMap st bp) kept True ws = (st', un', ch')"
      by simp
    from Cons.IH [OF step [OF Cons.prems(1) Some] this] show ?thesis .
  qed
qed

lemma retryLoop_invariant:
  "(\<And>st w bp. I st \<Longrightarrow> findPlacement rows cols st w = Some bp \<Longrightarrow> I (placeWordInMap st bp)) \<Longrightarrow>
   I st \<Longrightarrow> \<exists>st'. I st' \<and> retryLoop rows cols st unplaced changed = placed st'"
proof (induction rows cols st unplaced changed rule: retryLoop.induct)
  case (1 rows cols st unplaced changed)
  show ?case
  proof (cases "changed \<and> unplaced \<noteq> []")
    case True
    define pass where "pass = layoutPass rows cols st [] False unplaced"
    have eq: "layoutPass rows cols st [] False unplaced = (fst pass, fst (snd pass), snd (snd pass))"
      by (simp add: pass_def)
    have "I (fst pass)"
      by (rule layoutPass_invariant [of I rows cols, OF "1.prems"(1) "1.prems"(2) eq])
    from "1.IH" [OF True pass_def "1.prems"(1) this]
    show ?thesis
      using True retryLoop_step [OF _ _ eq, of changed] by simp
  next
    case False
    with "1.prems"(2) show ?thesis by (auto simp: retryLoop_stop)
  qed
qed

lemma crossingChain_snoc:
  assumes "crossingChain ps" "\<exists>pw \<in> set ps. crosses bp pw"
  shows "crossingChain (ps @ [bp])"
  unfolding crossingChain_def
proof (intro allI impI)
  fix i assume i: "0 < i \<and> i < length (ps @ [bp])"
  show "\<exists>i' < i. crosses ((ps @ [bp]) ! i) ((ps @ [bp]) ! i')"
  proof (cases "i < length ps")
    case True
    with assms(1) i obtain i' where "i' < i" "crosses (ps ! i) (ps ! i')"
      unfolding crossingChain_def by blast
    with True show ?thesis
      by (auto simp: nth_append intro!: exI [of _ i'])
  next
    case False
    with i have il: "i = length ps" by simp
    from assms(2) obtain i' where "i' < length ps" "crosses bp (ps ! i')"
      by (auto simp: in_set_conv_nth)
    with il show ?thesis
      by (auto simp: nth_append intro!: exI [of _ i'])
  qed
qed

lemma generateLayout_crossingChain:
  fixes words :: "'l WordData list"
  shows "crossingChain (generateLayout words rows cols)"
proof (cases "sortWords words")
  case Nil
  then show ?thesis by (simp add: generateLayout_def crossingChain_def)
next
  case (Cons firstWord unplaced)
  let ?I = "\<lambda>st :: 'l LayoutState. crossingChain (placed st)"
  let ?st1 = "placeWordInMap \<lparr> gridMap = Map.empty, placed = [] \<rparr> (firstPlacement firstWord rows cols)"
  have "\<exists>st'. ?I st' \<and> retryLoop rows cols ?st1 unplaced True = placed st'"
  proof (rule retryLoop_invariant [where I = "?I"])
    fix st :: "'l LayoutState" and w bp
    assume a: "crossingChain (placed st)" and b: "findPlacement rows cols st w = Some bp"
    from findPlacement_Some [OF b] have "bp \<in> set (candidates (placed st) w)"
      by simp
    from candidates_cross [OF this] a show "crossingChain (placed (placeWordInMap st bp))"
      by (simp add: crossingChain_snoc)
  next
    show "crossingChain (placed ?st1)"
      by (auto simp: crossingChain_def)
  qed
  then show ?thesis
    by (auto simp: generateLayout_Cons [OF Cons])
qed

text \<open>
  Claim C10. Every placement in the result of \<open>generateLayout\<close> except the first crosses a
  placement committed earlier: the two orientations differ and some cell lies on both
  paths with the same letter in both words.
\<close>

theorem generateLayout_crossing:
  assumes "0 < i" "i < length (generateLayout words rows cols)"
  shows "\<exists>i' < i. crosses (generateLayout words rows cols ! i) (generateLayout words rows cols ! i')"
  using generateLayout_crossingChain [of words rows cols] assms
  unfolding crossingChain_def by blast

theorem generateLayout_crossing_witness:
  "(0::nat) < 1 \<and>
   1 < length (generateLayout [\<lparr>wid = ''1'', word = ''REACT'', clue = ''ui''\<rparr>,
                               \<lparr>wid = ''2'', word = ''STATE'', clue = ''data''\<rparr>] 15 15) \<and>
   crosses (generateLayout [\<lparr>wid = ''1'', word = ''REACT'', clue = ''ui''\<rparr>,
                            \<lparr>wid = ''2'', word = ''STATE'', clue = ''data''\<rparr>] 15 15 ! 1)
           (generateLayout [\<lparr>wid = ''1'', word = ''REACT'', clue = ''ui''\<rparr>,
                            \<lparr>wid = ''2'', word = ''STATE'', clue = ''data''\<rparr>] 15 15 ! 0)"
proof -
  let ?ws = "[\<lparr>wid = ''1'', word = ''REACT'', clue = ''ui''\<rparr>,
              \<lparr>wid = ''2'', word = ''STATE'', clue = ''data''\<rparr>]"
  have g: "generateLayout ?ws 15 15 =
      [\<lparr>wid = ''1'', word = ''REACT'', clue = ''ui'', row = 7, col = 5, orientation = across, number = None\<rparr>,
       \<lparr>wid = ''2'', word = ''STATE'', clue = ''data'', row = 6, col = 9, orientation = down, number = None\<rparr>]"
    by code_simp
  have l: "(0::nat) < 1" "1 < length (generateLayout ?ws 15 15)"
    by (simp_all add: g)
  from generateLayout_crossing [OF l] obtain i' where "i' < 1"
    "crosses (generateLayout ?ws 15 15 ! 1) (generateLayout ?ws 15 15 ! i')"
    by blast
  then have "crosses (generateLayout ?ws 15 15 ! 1) (generateLayout ?ws 15 15 ! 0)"
    by simp
  with l show ?thesis by blast
qed

subsection \<open>Which candidate is committed\<close>

text \<open>
  What \<open>generateLayout\<close> of utils.ts does for an unplaced word: the search returns the
  first candidate, in scan order (placed words in commit order, then the letter index of
  the new word, then the letter index of the placed word), that \<open>canPlace\<close> accepts, and
  the pass commits that candidate. No distance to the centre of the grid is computed.
\<close>

lemma layoutPass_commits_first_accepted:
  "findPlacement rows cols st w = find (accepts (gridMap st) rows cols) (candidates (placed st) w) \<and>
   layoutPass rows cols st kept changed (w # ws) =
     (case find (accepts (gridMap st) rows cols) (candidates (placed st) w) of
        None \<Rightarrow> layoutPass rows cols st (kept @ [w]) changed ws
      | Some b \<Rightarrow> layoutPass rows cols (placeWordInMap st b) kept True ws)"
  by (simp add: findPlacement_find)

text \<open>
  Claim C1: evaluation at the failing input. The claim asks for the accepted candidate
  closest to the centre of the grid, and the other revision of \<open>generateLayout\<close> (its text
  follows the component in components/Grid.tsx) does so, under the comment "We look for
  the BEST placement, not just the first one". \<open>generateLayout\<close> of utils.ts stops at the
  first accepted candidate. On a 15 by 15 grid with the words AXXAXXX and AB, the word AB
  has two accepted candidates, both down: at column 4 (under the first A) and at column 7
  (under the second A). The one at column 7 is closer to the centre (squared distance
  1/2 against 25/2), but the layout returns AB at column 4, the first in scan order.
\<close>

theorem closest_candidate_not_committed:
  "generateLayout [\<lparr>wid = ''1'', word = ''AXXAXXX'', clue = ''a''\<rparr>,
                   \<lparr>wid = ''2'', word = ''AB'', clue = ''b''\<rparr>] 15 15
     = [\<lparr>wid = ''1'', word = ''AXXAXXX'', clue = ''a'', row = 7, col = 4, orientation = across, number = None\<rparr>,
        \<lparr>wid = ''2'', word = ''AB'', clue = ''b'', row = 7, col = 4, orientation = down, number = None\<rparr>] \<and>
   \<lparr>wid = ''2'', word = ''AB'', clue = ''b'', row = 7, col = 7, orientation = down, number = None\<rparr>
     \<in> set (candidates
          [\<lparr>wid = ''1'', word = ''AXXAXXX'', clue = ''a'', row = 7, col = 4, orientation = across, number = None\<rparr>]
          \<lparr>wid = ''2'', word = ''AB'', clue = ''b''\<rparr>) \<and>
   accepts (gridMap (placeWordInMap \<lparr>gridMap = Map.empty, placed = []\<rparr>
              \<lparr>wid = ''1'', word = ''AXXAXXX'', clue = ''a'', row = 7, col = 4, orientation = across, number = None\<rparr>))
           15 15
           \<lparr>wid = ''2'', word = ''AB'', clue = ''b'', row = 7, col = 7, orientation = down, number = None\<rparr> \<and>
   spec_centerDist 15 15
       \<lparr>wid = ''2'', word = ''AB'', clue = ''b'', row = 7, col = 7, orientation = down, number = None\<rparr>
     < spec_centerDist 15 15
       \<lparr>wid = ''2'', word = ''AB'', clue = ''b'', row = 7, col = 4, orientation = down, number = None\<rparr>"
proof (intro conjI)
  show "generateLayout [\<lparr>wid = ''1'', word = ''AXXAXXX'', clue = ''a''\<rparr>,
                   \<lparr>wid = ''2'', word = ''AB'', clue = ''b''\<rparr>] 15 15
     = [\<lparr>wid = ''1'', word = ''AXXAXXX'', clue = ''a'', row = 7, col = 4, orientation = across, number = None\<rparr>,
        \<lparr>wid = ''2'', word = ''AB'', clue = ''b'', row = 7, col = 4, orientation = down, number = None\<rparr>]"
    by code_simp
  show "\<lparr>wid = ''2'', word = ''AB'', clue = ''b'', row = 7, col = 7, orientation = down, number = None\<rparr>
     \<in> set (candidates
          [\<lparr>wid = ''1'', word = ''AXXAXXX'', clue = ''a'', row = 7, col = 4, orientation = across, number = None\<rparr>]
          \<lparr>wid = ''2'', word = ''AB'', clue = ''b''\<rparr>)"
    by code_simp
  show "accepts (gridMap (placeWordInMap \<lparr>gridMap = Map.empty, placed = []\<rparr>
              \<lparr>wid = ''1'', word = ''AXXAXXX'', clue = ''a'', row = 7, col = 4, orientation = across, number = None\<rparr>))
           15 15
           \<lparr>wid = ''2'', word = ''AB'', clue = ''b'', row = 7, col = 7, orientation = down, number = None\<rparr>"
    by code_simp
  show "spec_centerDist 15 15
       \<lparr>wid = ''2'', word = ''AB'', clue = ''b'', row = 7, col = 7, orientation = down, number = None\<rparr>
     < spec_centerDist 15 15
       \<lparr>wid = ''2'', word = ''AB'', clue = ''b'', row = 7, col = 4, orientation = down, number = None\<rparr>"
    by (simp add: spec_centerDist_def dr_of_def dc_of_def power2_eq_square)
qed

theorem closest_candidate_not_committed_witness:
  "\<exists>b c. generateLayout [\<lparr>wid = ''1'', word = ''AXXAXXX'', clue = ''a''\<rparr>,
                          \<lparr>wid = ''2'', word = ''AB'', clue = ''b''\<rparr>] 15 15
            = [\<lparr>wid = ''1'', word = ''AXXAXXX'', clue = ''a'', row = 7, col = 4, orientation = across, number = None\<rparr>, b] \<and>
          c \<in> set (candidates
            [\<lparr>wid = ''1'', word = ''AXXAXXX'', clue = ''a'', row = 7, col = 4, orientation = across, number = None\<rparr>]
            \<lparr>wid = ''2'', word = ''AB'', clue = ''b''\<rparr>) \<and>
          accepts (gridMap (placeWordInMap \<lparr>gridMap = Map.empty, placed = []\<rparr>
              \<lparr>wid = ''1'', word = ''AXXAXXX'', clue = ''a'', row = 7, col = 4, orientation = across, number = None\<rparr>))
            15 15 c \<and>
          spec_centerDist 15 15 c < spec_centerDist 15 15 b"
  by (rule exI, rule exI, rule closest_candidate_not_committed)

subsection \<open>The gap check\<close>

lemma canPlaceCell_strict:
  "canPlaceCell gm dr dc r c ch = canPlaceCell_strictGap gm dr dc r c ch True"
  by (cases "getChar gm r c") (simp_all add: canPlaceCell_def canPlaceCell_strictGap_def Let_def)

lemma canPlace_strict:
  "canPlace gm rows cols wd r c ori = canPlace_strictGap gm rows cols wd r c ori True"
  by (simp add: canPlace_def canPlace_strictGap_def canPlaceCell_strict)

lemma canPlaceCell_gap:
  assumes "canPlaceCell gm dr dc r c ch" "getChar gm r c = None"
  shows "\<not> isOccupied gm (r + 2 * dc) (c + 2 * dr) \<and> \<not> isOccupied gm (r - 2 * dc) (c - 2 * dr)"
  using assms by (auto simp: canPlaceCell_def Let_def split: if_splits)

lemma canPlace_cells:
  assumes "canPlace gm rows cols wd r c ori" "i < length wd"
  shows "canPlaceCell gm (dr_of ori) (dc_of ori) (r + int i * dr_of ori) (c + int i * dc_of ori) (wd ! i)"
  using assms by (auto simp: canPlace_def Let_def list_all_iff split: if_splits)

text \<open>
  What the validator of utils.ts does: it has no strictness parameter and always runs the
  two-step perpendicular gap check. It is the flagged validator with \<open>strictGap\<close> true,
  and whenever it accepts a placement, the cells two steps to either side of every newly
  written cell are unoccupied. The layout makes one sweep over the candidates under this
  validator: the search finds nothing exactly when no candidate passes it.
\<close>

lemma canPlace_gap_always_enforced:
  "canPlace gm rows cols wd r c ori = canPlace_strictGap gm rows cols wd r c ori True \<and>
   (canPlace gm rows cols wd r c ori \<longrightarrow>
      (\<forall>i < length wd. getChar gm (r + int i * dr_of ori) (c + int i * dc_of ori) = None \<longrightarrow>
         \<not> isOccupied gm (r + int i * dr_of ori + 2 * dc_of ori) (c + int i * dc_of ori + 2 * dr_of ori) \<and>
         \<not> isOccupied gm (r + int i * dr_of ori - 2 * dc_of ori) (c + int i * dc_of ori - 2 * dr_of ori))) \<and>
   (findPlacement rows cols st w = None \<longleftrightarrow>
      \<not> list_ex (accepts (gridMap st) rows cols) (candidates (placed st) w))"
proof (intro conjI impI allI)
  show "canPlace gm rows cols wd r c ori = canPlace_strictGap gm rows cols wd r c ori True"
    by (rule canPlace_strict)
next
  fix i
  assume a: "canPlace gm rows cols wd r c ori" and i: "i < length wd"
    and n: "getChar gm (r + int i * dr_of ori) (c + int i * dc_of ori) = None"
  from canPlaceCell_gap [OF canPlace_cells [OF a i] n]
  show "\<not> isOccupied gm (r + int i * dr_of ori + 2 * dc_of ori) (c + int i * dc_of ori + 2 * dr_of ori)"
    and "\<not> isOccupied gm (r + int i * dr_of ori - 2 * dc_of ori) (c + int i * dc_of ori - 2 * dr_of ori)"
    by simp_all
next
  show "findPlacement rows cols st w = None \<longleftrightarrow>
      \<not> list_ex (accepts (gridMap st) rows cols) (candidates (placed st) w)"
    by (auto simp: findPlacement_find find_None_iff list_ex_iff)
qed

text \<open>
  Claim C2: evaluation at the failing input. The claim asks for a validator with a
  strictness flag and for a second, relaxed sweep when the strict one finds nothing; the
  other revision of \<open>generateLayout\<close> (components/Grid.tsx) has both, commented "Try strict
  gap first (2 cells), if no moves found, retry with relaxed gap (1 cell)". The
  \<open>canPlace\<close> of utils.ts has no flag and \<open>generateLayout\<close> sweeps once. On a 15 by 15 grid
  with the words ABCDE, AFG and CH, the first two are placed (ABCDE across in row 7, AFG
  down under the A in column 5). The only candidate for CH runs down from the C in column
  7; its second cell (8, 7) is two columns from the F of AFG at (8, 5), so the validator
  rejects it. With the gap check skipped the same candidate passes, yet the layout does
  not retry: CH is missing from the result.
\<close>

theorem no_relaxed_retry:
  "generateLayout [\<lparr>wid = ''1'', word = ''ABCDE'', clue = ''a''\<rparr>,
                   \<lparr>wid = ''2'', word = ''AFG'', clue = ''b''\<rparr>,
                   \<lparr>wid = ''3'', word = ''CH'', clue = ''c''\<rparr>] 15 15
     = [\<lparr>wid = ''1'', word = ''ABCDE'', clue = ''a'', row = 7, col = 5, orientation = across, number = None\<rparr>,
        \<lparr>wid = ''2'', word = ''AFG'', clue = ''b'', row = 7, col = 5, orientation = down, number = None\<rparr>] \<and>
   candidates
     [\<lparr>wid = ''1'', word = ''ABCDE'', clue = ''a'', row = 7, col = 5, orientation = across, number = None\<rparr>,
      \<lparr>wid = ''2'', word = ''AFG'', clue = ''b'', row = 7, col = 5, orientation = down, number = None\<rparr>]
     \<lparr>wid = ''3'', word = ''CH'', clue = ''c''\<rparr>
     = [\<lparr>wid = ''3'', word = ''CH'', clue = ''c'', row = 7, col = 7, orientation = down, number = None\<rparr>] \<and>
   \<not> canPlace
      (gridMap (placeWordInMap (placeWordInMap \<lparr>gridMap = Map.empty, placed = []\<rparr>
         \<lparr>wid = ''1'', word = ''ABCDE'', clue = ''a'', row = 7, col = 5, orientation = across, number = None\<rparr>)
         \<lparr>wid = ''2'', word = ''AFG'', clue = ''b'', row = 7, col = 5, orientation = down, number = None\<rparr>))
      15 15 ''CH'' 7 7 down \<and>
   canPlace_strictGap
      (gridMap (placeWordInMap (placeWordInMap \<lparr>gridMap = Map.empty, placed = []\<rparr>
         \<lparr>wid = ''1'', word = ''ABCDE'', clue = ''a'', row = 7, col = 5, orientation = across, number = None\<rparr>)
         \<lparr>wid = ''2'', word = ''AFG'', clue = ''b'', row = 7, col = 5, orientation = down, number = None\<rparr>))
      15 15 ''CH'' 7 7 down False"
  by (intro conjI; code_simp)

theorem no_relaxed_retry_witness:
  "length (generateLayout [\<lparr>wid = ''1'', word = ''ABCDE'', clue = ''a''\<rparr>,
                           \<lparr>wid = ''2'', word = ''AFG'', clue = ''b''\<rparr>,
                           \<lparr>wid = ''3'', word = ''CH'', clue = ''c''\<rparr>] 15 15) = 2 \<and>
   canPlace_strictGap
      (gridMap (placeWordInMap (placeWordInMap \<lparr>gridMap = Map.empty, placed = []\<rparr>
         \<lparr>wid = ''1'', word = ''ABCDE'', clue = ''a'', row = 7, col = 5, orientation = across, number = None\<rparr>)
         \<lparr>wid = ''2'', word = ''AFG'', clue = ''b'', row = 7, col = 5, orientation = down, number = None\<rparr>))
      15 15 ''CH'' 7 7 down False"
proof -
  from no_relaxed_retry [THEN conjunct1]
  have "length (generateLayout [\<lparr>wid = ''1'', word = ''ABCDE'', clue = ''a''\<rparr>,
                           \<lparr>wid = ''2'', word = ''AFG'', clue = ''b''\<rparr>,
                           \<lparr>wid = ''3'', word = ''CH'', clue = ''c''\<rparr>] 15 15) = 2"
    by simp
  with no_relaxed_retry [THEN conjunct2, THEN conjunct2, THEN conjunct2]
  show ?thesis
    by (intro conjI)
qed

section \<open>Bounds checks of the two validators\<close>

text \<open>The interactive validator rejects every placement whose extent leaves the grid, on
  either axis and for both orientations, before it reads any cell.\<close>

lemma validatePlacement_rejects_off_grid:
  assumes "\<not> extentInGrid rows cols wd r c ori"
  shows "validatePlacement grid wd r c ori rows cols = Inr False"
proof -
  from assms obtain i where i: "i < length wd"
    and out: "r + int i * dr_of ori < 0 \<or> r + int i * dr_of ori \<ge> rows \<or>
              c + int i * dc_of ori < 0 \<or> c + int i * dc_of ori \<ge> cols"
    by (auto simp: extentInGrid_def list_all_iff)
  have d: "0 \<le> dr_of ori" "0 \<le> dc_of ori" "dr_of ori \<le> 1" "dc_of ori \<le> 1"
    by (simp_all add: dr_of_def dc_of_def)
  have le: "int i \<le> int (length wd) - 1"
    using i by simp
  have mr: "int i * dr_of ori \<le> (int (length wd) - 1) * dr_of ori"
    by (rule mult_right_mono [OF le d(1)])
  have mc: "int i * dc_of ori \<le> (int (length wd) - 1) * dc_of ori"
    by (rule mult_right_mono [OF le d(2)])
  have nr: "0 \<le> int i * dr_of ori" and nc: "0 \<le> int i * dc_of ori"
    using d by simp_all
  from out mr mc nr nc
  have "r < 0 \<or> c < 0 \<or> r + (int (length wd) - 1) * dr_of ori \<ge> rows \<or>
        c + (int (length wd) - 1) * dc_of ori \<ge> cols"
    by linarith
  then show ?thesis
    by (auto simp: validatePlacement_def Let_def)
qed

text \<open>
  Claim C3: evaluation at the failing input. On a grid of 5 rows and 2 columns the word
  ABCDE does not fit and is placed at row 0, column 0 (the fallback). For DXX the search
  then proposes column 3, below the D; \<open>canPlace\<close> checks the rows of a down word but not
  its column, accepts the placement although column 3 is outside \<open>[0, 2)\<close>, and
  \<open>generateLayout\<close> returns it. \<open>validatePlacement\<close> rejects the same placement.
\<close>

theorem canPlace_accepts_off_grid:
  "canPlace (gridMap (placeWordInMap \<lparr>gridMap = Map.empty, placed = []\<rparr>
        \<lparr>wid = ''1'', word = ''ABCDE'', clue = ''a'', row = 0, col = 0, orientation = across, number = None\<rparr>))
      5 2 ''DXX'' 0 3 down \<and>
   \<not> extentInGrid 5 2 ''DXX'' 0 3 down \<and>
   validatePlacement grid ''DXX'' 0 3 down 5 2 = Inr False \<and>
   generateLayout [\<lparr>wid = ''1'', word = ''ABCDE'', clue = ''a''\<rparr>,
                   \<lparr>wid = ''2'', word = ''DXX'', clue = ''b''\<rparr>] 5 2
     = [\<lparr>wid = ''1'', word = ''ABCDE'', clue = ''a'', row = 0, col = 0, orientation = across, number = None\<rparr>,
        \<lparr>wid = ''2'', word = ''DXX'', clue = ''b'', row = 0, col = 3, orientation = down, number = None\<rparr>]"
proof (intro conjI)
  show "canPlace (gridMap (placeWordInMap \<lparr>gridMap = Map.empty, placed = []\<rparr>
        \<lparr>wid = ''1'', word = ''ABCDE'', clue = ''a'', row = 0, col = 0, orientation = across, number = None\<rparr>))
      5 2 ''DXX'' 0 3 down"
    by code_simp
  show n: "\<not> extentInGrid 5 2 ''DXX'' 0 3 down"
    by code_simp
  show "validatePlacement grid ''DXX'' 0 3 down 5 2 = Inr False"
    by (rule validatePlacement_rejects_off_grid [OF n])
  show "generateLayout [\<lparr>wid = ''1'', word = ''ABCDE'', clue = ''a''\<rparr>,
                   \<lparr>wid = ''2'', word = ''DXX'', clue = ''b''\<rparr>] 5 2
     = [\<lparr>wid = ''1'', word = ''ABCDE'', clue = ''a'', row = 0, col = 0, orientation = across, number = None\<rparr>,
        \<lparr>wid = ''2'', word = ''DXX'', clue = ''b'', row = 0, col = 3, orientation = down, number = None\<rparr>]"
    by code_simp
qed

theorem canPlace_accepts_off_grid_witness:
  "\<exists>(gm :: char gridMap) rows cols wd r c ori.
      canPlace gm rows cols wd r c ori \<and> \<not> extentInGrid rows cols wd r c ori"
  using canPlace_accepts_off_grid [of "[]"] by blast

section \<open>Properties of the grid model\<close>

subsection \<open>Shape of the grid and reading one cell\<close>

lemma length_upto_int: "length [0..n - 1] = nat n"
  by simp

lemma gridShape_createEmptyGrid: "gridShape rows cols (createEmptyGrid rows cols)"
  by (auto simp: gridShape_def createEmptyGrid_def)



lemma gridShape_updCell:
  assumes "gridShape rows cols g"
  shows "gridShape rows cols (updCell g r c f)"
proof (cases "nat r < length g")
  case True
  then have "length (g ! nat r) = nat cols"
    using assms by (simp add: gridShape_def)
  with assms show ?thesis
    by (auto simp: gridShape_def updCell_def dest!: set_update_subset_insert [THEN subsetD])
next
  case False
  then have "g[nat r := (g ! nat r)[nat c := f (g ! nat r ! nat c)]] = g"
    by (intro list_update_beyond) simp
  with assms show ?thesis
    by (simp add: updCell_def)
qed

lemma cellAt_updCell:
  assumes "gridShape rows cols g" "inGrid rows cols r c" "inGrid rows cols r' c'"
  shows "cellAt (updCell g r c f) r' c' = (if r' = r \<and> c' = c then f (cellAt g r c) else cellAt g r' c')"
proof -
  have l: "nat r < length g" "nat r' < length g"
    using assms by (auto simp: gridShape_def inGrid_def)
  then have "length (g ! nat r) = nat cols" "length (g ! nat r') = nat cols"
    using assms(1) by (auto simp: gridShape_def)
  then have lc: "nat c < length (g ! nat r)" "nat c' < length (g ! nat r')"
    using assms by (auto simp: inGrid_def)
  have e: "nat r' = nat r \<longleftrightarrow> r' = r" "nat c' = nat c \<longleftrightarrow> c' = c"
    using assms by (auto simp: inGrid_def)
  show ?thesis
    using l lc e by (auto simp: cellAt_def updCell_def nth_list_update)
qed

subsection \<open>The letter pass, cell by cell\<close>

lemma gridShape_placeLetter:
  "gridShape rows cols g \<Longrightarrow> gridShape rows cols (placeLetter rows cols pw i g)"
  by (simp add: placeLetter_def Let_def gridShape_updCell)

lemma gridShape_fold_placeLetter:
  "gridShape rows cols g \<Longrightarrow> gridShape rows cols (fold (placeLetter rows cols pw) is g)"
  by (induction "is" arbitrary: g) (simp_all add: gridShape_placeLetter)

lemma gridShape_placeLetters:
  "gridShape rows cols g \<Longrightarrow> gridShape rows cols (placeLetters rows cols pws g)"
  unfolding placeLetters_def
  by (induction pws arbitrary: g) (simp_all add: gridShape_fold_placeLetter)








subsection \<open>The numbering pass\<close>

lemma fold_concat_lists: "fold f (concat xss) s = fold (fold f) xss s"
  by (induction xss arbitrary: s) simp_all

lemma numberCells_rowMajor:
  "numberCells rows cols s = fold (\<lambda>(r, c). numberCell r c) (rowMajor rows cols) s"
  by (simp add: numberCells_def rowMajor_def fold_concat_lists fold_map comp_def)

lemma set_pairs: "set (concat (map (\<lambda>r. map (\<lambda>c. (r, c)) cs) rs)) = set rs \<times> set cs"
  by (induction rs) auto

lemma distinct_pairs:
  "distinct rs \<Longrightarrow> distinct cs \<Longrightarrow> distinct (concat (map (\<lambda>r. map (\<lambda>c. (r, c)) cs) rs))"
proof (induction rs)
  case Nil
  then show ?case by simp
next
  case (Cons r rs)
  have "distinct (map (\<lambda>c. (r, c)) cs)"
    using Cons.prems(2) by (simp add: distinct_map inj_on_def)
  moreover have "set (map (\<lambda>c. (r, c)) cs) \<inter> set (concat (map (\<lambda>r. map (\<lambda>c. (r, c)) cs) rs)) = {}"
    using Cons.prems(1) unfolding set_pairs by auto
  ultimately show ?case
    using Cons by simp
qed

lemma rowMajor_inGrid: "(r, c) \<in> set (rowMajor rows cols) \<longleftrightarrow> inGrid rows cols r c"
  unfolding rowMajor_def set_pairs by (auto simp: inGrid_def)

lemma distinct_rowMajor: "distinct (rowMajor rows cols)"
  unfolding rowMajor_def by (rule distinct_pairs) simp_all

lemma numberOf_None: "numberOf os n x = None \<longleftrightarrow> x \<notin> set os"
  by (induction os arbitrary: n) auto

lemma numberOf_nth: "distinct os \<Longrightarrow> k < length os \<Longrightarrow> numberOf os n (os ! k) = Some (n + int k)"
proof (induction os arbitrary: n k)
  case Nil
  then show ?case by simp
next
  case (Cons y ys)
  show ?case
  proof (cases k)
    case 0
    then show ?thesis by simp
  next
    case (Suc k')
    with Cons.prems have "ys ! k' \<noteq> y" "k' < length ys" "distinct ys"
      by auto
    with Cons.IH [of k' "n + 1"] Suc show ?thesis by simp
  qed
qed

lemma isOriginOf_erase:
  "map eraseNumber xs = map eraseNumber ys \<Longrightarrow> isOriginOf xs = isOriginOf ys"
proof
  fix x
  assume a: "map eraseNumber xs = map eraseNumber ys"
  have "isOriginOf zs x = list_ex (\<lambda>w. row w = fst x \<and> col w = snd x) (map eraseNumber zs)" for zs :: "'a PlacedWord list"
    by (simp add: isOriginOf_def list_ex_iff eraseNumber_def)
  with a show "isOriginOf xs x = isOriginOf ys x" by simp
qed

lemma cluesFor_erase:
  assumes "map eraseNumber xs = map eraseNumber ys"
  shows "cluesFor xs n x = cluesFor ys n x"
proof -
  have "cluesFor zs n x = cluesFor (map eraseNumber zs) n x" for zs :: "'a PlacedWord list"
    by (simp add: cluesFor_def filter_map comp_def eraseNumber_def mkClue_def)
  with assms show ?thesis by metis
qed

lemma numberCell_origin:
  assumes "isOriginOf (nplaced s) (r, c)"
  shows "numberCell r c s =
     \<lparr> currentNumber = currentNumber s + 1,
       clues = clues s @ cluesFor (nplaced s) (currentNumber s) (r, c),
       ngrid = updCell (ngrid s) r c (\<lambda>cell. cell \<lparr> clueNumber := Some (currentNumber s) \<rparr>),
       nplaced = setNumbers [(r, c)] (currentNumber s) (nplaced s) \<rparr>"
proof -
  from assms have "filter (\<lambda>w. row w = r \<and> col w = c) (nplaced s) \<noteq> []"
    by (auto simp: isOriginOf_def list_ex_iff filter_empty_conv)
  then show ?thesis
    by (auto simp: numberCell_def Let_def cluesFor_def setNumbers_def)
qed

lemma numberCell_not_origin:
  assumes "\<not> isOriginOf (nplaced s) (r, c)"
  shows "numberCell r c s = s"
proof -
  from assms have "filter (\<lambda>w. row w = r \<and> col w = c) (nplaced s) = []"
    by (auto simp: isOriginOf_def list_ex_iff filter_empty_conv)
  then show ?thesis
    by (simp add: numberCell_def Let_def)
qed

lemma erase_setNumbers: "map eraseNumber (setNumbers os n pws) = map eraseNumber pws"
  by (auto simp: setNumbers_def eraseNumber_def split: option.splits)

lemma numberedClues_erase:
  assumes "map eraseNumber xs = map eraseNumber ys"
  shows "numberedClues xs n os = numberedClues ys n os"
proof (induction os arbitrary: n)
  case Nil
  show ?case by simp
next
  case (Cons x os)
  from cluesFor_erase [OF assms, of n x] Cons [of "n + 1"] show ?case
    by simp
qed

lemma setNumbers_Cons:
  assumes "x \<notin> set os"
  shows "setNumbers os (n + 1) (setNumbers [x] n pws) = setNumbers (x # os) n pws"
proof -
  have "numberOf os (n + 1) x = None"
    using assms by (simp add: numberOf_None)
  then show ?thesis
    by (auto simp: setNumbers_def split: option.splits)
qed

lemma numbering_fold:
  assumes "distinct cs" "\<forall>x \<in> set cs. inGrid rows cols (fst x) (snd x)" "gridShape rows cols (ngrid s)"
  shows "currentNumber (fold (\<lambda>(r, c). numberCell r c) cs s)
           = currentNumber s + int (length (filter (isOriginOf (nplaced s)) cs)) \<and>
         clues (fold (\<lambda>(r, c). numberCell r c) cs s)
           = clues s @ numberedClues (nplaced s) (currentNumber s) (filter (isOriginOf (nplaced s)) cs) \<and>
         nplaced (fold (\<lambda>(r, c). numberCell r c) cs s)
           = setNumbers (filter (isOriginOf (nplaced s)) cs) (currentNumber s) (nplaced s) \<and>
         gridShape rows cols (ngrid (fold (\<lambda>(r, c). numberCell r c) cs s)) \<and>
         (\<forall>r c. inGrid rows cols r c \<longrightarrow>
            cellAt (ngrid (fold (\<lambda>(r, c). numberCell r c) cs s)) r c
              = numberedCell (filter (isOriginOf (nplaced s)) cs) (currentNumber s) (ngrid s) r c)"
  using assms
proof (induction cs arbitrary: s)
  case Nil
  then show ?case
    by (simp add: setNumbers_def numberedCell_def)
next
  case (Cons x cs)
  obtain xr xc where x: "x = (xr, xc)" by (cases x)
  have xg: "inGrid rows cols xr xc"
    using Cons.prems(2) x by simp
  have d: "distinct cs" "x \<notin> set cs" and g: "\<forall>x \<in> set cs. inGrid rows cols (fst x) (snd x)"
    using Cons.prems by simp_all
  show ?case
  proof (cases "isOriginOf (nplaced s) x")
    case False
    then have "numberCell xr xc s = s"
      using x by (simp add: numberCell_not_origin)
    with Cons.IH [OF d(1) g Cons.prems(3)] False x show ?thesis
      by simp
  next
    case True
    define n where "n = currentNumber s"
    define s1 where "s1 = numberCell xr xc s"
    define os where "os = filter (isOriginOf (nplaced s)) cs"
    have s1: "currentNumber s1 = n + 1"
      "clues s1 = clues s @ cluesFor (nplaced s) n x"
      "ngrid s1 = updCell (ngrid s) xr xc (\<lambda>cell. cell \<lparr> clueNumber := Some n \<rparr>)"
      "nplaced s1 = setNumbers [x] n (nplaced s)"
      using True unfolding s1_def n_def x by (simp_all add: numberCell_origin)
    have e: "map eraseNumber (nplaced s1) = map eraseNumber (nplaced s)"
      by (simp add: s1 erase_setNumbers)
    have os1: "filter (isOriginOf (nplaced s1)) cs = os"
      by (simp add: os_def isOriginOf_erase [OF e])
    have sh: "gridShape rows cols (ngrid s1)"
      by (simp add: s1 gridShape_updCell Cons.prems(3))
    have xo: "x \<notin> set os"
      using d(2) by (simp add: os_def)
    have f: "fold (\<lambda>(r, c). numberCell r c) (x # cs) s = fold (\<lambda>(r, c). numberCell r c) cs s1"
      by (simp add: x s1_def)
    have o: "filter (isOriginOf (nplaced s)) (x # cs) = x # os"
      using True by (simp add: os_def)
    note IH = Cons.IH [OF d(1) g sh, unfolded os1 s1(1)]
    have a: "currentNumber (fold (\<lambda>(r, c). numberCell r c) cs s1) = n + int (length (x # os))"
      using IH by simp
    have b: "clues (fold (\<lambda>(r, c). numberCell r c) cs s1) = clues s @ numberedClues (nplaced s) n (x # os)"
      using IH numberedClues_erase [OF e, of "n + 1" os] by (simp add: s1(2))
    have c: "nplaced (fold (\<lambda>(r, c). numberCell r c) cs s1) = setNumbers (x # os) n (nplaced s)"
      using IH by (simp add: s1(4) setNumbers_Cons [OF xo])
    have dd: "gridShape rows cols (ngrid (fold (\<lambda>(r, c). numberCell r c) cs s1))"
      using IH by simp
    have ee: "cellAt (ngrid (fold (\<lambda>(r, c). numberCell r c) cs s1)) r c = numberedCell (x # os) n (ngrid s) r c"
      if rc: "inGrid rows cols r c" for r c
    proof -
      from IH rc have 1: "cellAt (ngrid (fold (\<lambda>(r, c). numberCell r c) cs s1)) r c
          = numberedCell os (n + 1) (ngrid s1) r c"
        by simp
      have 2: "cellAt (ngrid s1) r c =
          (if r = xr \<and> c = xc then (cellAt (ngrid s) xr xc) \<lparr> clueNumber := Some n \<rparr> else cellAt (ngrid s) r c)"
        unfolding s1(3) by (rule cellAt_updCell [OF Cons.prems(3) xg rc])
      show ?thesis
      proof (cases "(r, c) = x")
        case True
        then have "numberOf os (n + 1) (r, c) = None"
          using xo by (simp add: numberOf_None)
        with True 1 2 x show ?thesis
          by (simp add: numberedCell_def)
      next
        case False
        with 1 2 x show ?thesis
          by (auto simp: numberedCell_def split: option.splits)
      qed
    qed
    from a b c dd ee show ?thesis
      unfolding f o n_def by simp
  qed
qed

subsection \<open>calculateGrid in closed form\<close>

lemma numberedClues_sorted:
  "sorted (map c_number (numberedClues pws n os)) \<and> (\<forall>x \<in> set (numberedClues pws n os). n \<le> c_number x)"
proof (induction os arbitrary: n)
  case Nil
  show ?case by simp
next
  case (Cons y ys)
  have c: "\<forall>x \<in> set (cluesFor pws n y). c_number x = n"
    by (auto simp: cluesFor_def mkClue_def)
  then have s: "sorted (map c_number (cluesFor pws n y))"
    by (simp add: sorted_wrt_iff_nth_less sorted_wrt_map)
  from Cons [of "n + 1"] have r: "sorted (map c_number (numberedClues pws (n + 1) ys))"
    and g: "\<forall>x \<in> set (numberedClues pws (n + 1) ys). n + 1 \<le> c_number x"
    by simp_all
  from c s r g show ?case
    by (fastforce simp: sorted_append)
qed

lemma gridShape_lettersGrid: "gridShape rows cols (lettersGrid pws rows cols)"
  by (simp add: lettersGrid_def gridShape_placeLetters gridShape_createEmptyGrid)

lemma calculateGrid_closed:
  "r_placedWords (calculateGrid pws rows cols) = setNumbers (originCells pws rows cols) 1 pws"
  "r_clues (calculateGrid pws rows cols) = numberedClues pws 1 (originCells pws rows cols)"
  "inGrid rows cols r c \<Longrightarrow>
     cellAt (r_grid (calculateGrid pws rows cols)) r c =
       numberedCell (originCells pws rows cols) 1 (lettersGrid pws rows cols) r c"
proof -
  let ?s0 = "\<lparr> currentNumber = 1, clues = [], ngrid = lettersGrid pws rows cols, nplaced = pws \<rparr>"
  have g: "\<forall>x \<in> set (rowMajor rows cols). inGrid rows cols (fst x) (snd x)"
    using rowMajor_inGrid by auto
  have sh: "gridShape rows cols (ngrid ?s0)"
    by (simp add: gridShape_lettersGrid)
  note n = numbering_fold [OF distinct_rowMajor g sh, folded numberCells_rowMajor]
  have c: "calculateGrid pws rows cols =
      \<lparr> r_grid = ngrid (numberCells rows cols ?s0),
        r_clues = sort_key c_number (clues (numberCells rows cols ?s0)),
        r_placedWords = nplaced (numberCells rows cols ?s0) \<rparr>"
    by (simp add: calculateGrid_def Let_def lettersGrid_def)
  show "r_placedWords (calculateGrid pws rows cols) = setNumbers (originCells pws rows cols) 1 pws"
    using n by (simp add: c originCells_def)
  have "clues (numberCells rows cols ?s0) = numberedClues pws 1 (originCells pws rows cols)"
    using n by (simp add: originCells_def)
  then show "r_clues (calculateGrid pws rows cols) = numberedClues pws 1 (originCells pws rows cols)"
    using numberedClues_sorted [of pws 1 "originCells pws rows cols"]
    by (simp add: c sort_key_id_if_sorted)
  show "cellAt (r_grid (calculateGrid pws rows cols)) r c =
       numberedCell (originCells pws rows cols) 1 (lettersGrid pws rows cols) r c"
    if "inGrid rows cols r c"
    using n that by (simp add: c originCells_def)
qed

subsection \<open>Collision flags\<close>







subsection \<open>Clue numbers\<close>

lemma distinct_originCells: "distinct (originCells pws rows cols)"
  by (simp add: originCells_def distinct_rowMajor)

lemma originCells_inGrid:
  assumes "k < length (originCells pws rows cols)"
  shows "inGrid rows cols (fst (originCells pws rows cols ! k)) (snd (originCells pws rows cols ! k))"
proof -
  from assms have "originCells pws rows cols ! k \<in> set (originCells pws rows cols)"
    by simp
  then have "originCells pws rows cols ! k \<in> set (rowMajor rows cols)"
    by (simp add: originCells_def)
  then show ?thesis
    using rowMajor_inGrid [of "fst (originCells pws rows cols ! k)" "snd (originCells pws rows cols ! k)" rows cols]
    by simp
qed

lemma setNumbers_nth:
  assumes "i < length pws" "numberOf os n (row (pws ! i), col (pws ! i)) = Some m"
  shows "number (setNumbers os n pws ! i) = Some m"
  using assms by (simp add: setNumbers_def)

text \<open>
  Claim C6. In the result of \<open>calculateGrid\<close>, the \<open>k\<close>-th origin cell in row-major order
  (counting from 0) carries the clue number \<open>k + 1\<close>: numbers start at 1 and strictly
  increase along the row-major order of the distinct origin cells. Every placement
  anchored at that cell receives the same number \<open>k + 1\<close>, in its \<open>number\<close> field and in its
  clue entry: the clue list consists of the entries of the placements of each origin cell
  in turn, numbered consecutively from 1, and it is sorted by number.
\<close>

theorem calculateGrid_numbering:
  "(\<forall>k < length (originCells pws rows cols).
      clueNumber (cellAt (r_grid (calculateGrid pws rows cols))
                    (fst (originCells pws rows cols ! k)) (snd (originCells pws rows cols ! k)))
        = Some (int k + 1)) \<and>
   (\<forall>i < length pws. \<forall>k < length (originCells pws rows cols).
      (row (pws ! i), col (pws ! i)) = originCells pws rows cols ! k \<longrightarrow>
        number (r_placedWords (calculateGrid pws rows cols) ! i) = Some (int k + 1)) \<and>
   r_clues (calculateGrid pws rows cols) = numberedClues pws 1 (originCells pws rows cols) \<and>
   sorted (map c_number (r_clues (calculateGrid pws rows cols)))"
proof (intro conjI allI impI)
  fix k
  assume k: "k < length (originCells pws rows cols)"
  define x where "x = originCells pws rows cols ! k"
  have n: "numberOf (originCells pws rows cols) 1 (fst x, snd x) = Some (1 + int k)"
    using numberOf_nth [OF distinct_originCells k, of 1] by (simp add: x_def)
  have "cellAt (r_grid (calculateGrid pws rows cols)) (fst x) (snd x) =
          numberedCell (originCells pws rows cols) 1 (lettersGrid pws rows cols) (fst x) (snd x)"
    unfolding x_def by (rule calculateGrid_closed(3) [OF originCells_inGrid [OF k]])
  then show "clueNumber (cellAt (r_grid (calculateGrid pws rows cols))
                    (fst (originCells pws rows cols ! k)) (snd (originCells pws rows cols ! k)))
        = Some (int k + 1)"
    using n by (simp add: numberedCell_def x_def)
next
  fix i k
  assume i: "i < length pws" and k: "k < length (originCells pws rows cols)"
    and e: "(row (pws ! i), col (pws ! i)) = originCells pws rows cols ! k"
  have "numberOf (originCells pws rows cols) 1 (row (pws ! i), col (pws ! i)) = Some (1 + int k)"
    unfolding e by (rule numberOf_nth [OF distinct_originCells k])
  from setNumbers_nth [OF i this]
  show "number (r_placedWords (calculateGrid pws rows cols) ! i) = Some (int k + 1)"
    by (simp add: calculateGrid_closed(1))
next
  show "r_clues (calculateGrid pws rows cols) = numberedClues pws 1 (originCells pws rows cols)"
    by (rule calculateGrid_closed(2))
next
  show "sorted (map c_number (r_clues (calculateGrid pws rows cols)))"
    unfolding calculateGrid_closed(2)
    using numberedClues_sorted [of pws 1 "originCells pws rows cols"] by (rule conjunct1)
qed

theorem calculateGrid_numbering_witness:
  "(1::nat) < length (originCells
      [\<lparr>wid = ''1'', word = ''CAT'', clue = ''pet'', row = 0, col = 0, orientation = across, number = None\<rparr>,
       \<lparr>wid = ''2'', word = ''COW'', clue = ''moo'', row = 0, col = 0, orientation = down, number = None\<rparr>,
       \<lparr>wid = ''3'', word = ''TO'', clue = ''prep'', row = 0, col = 2, orientation = down, number = None\<rparr>] 3 3) \<and>
   clueNumber (cellAt (r_grid (calculateGrid
      [\<lparr>wid = ''1'', word = ''CAT'', clue = ''pet'', row = 0, col = 0, orientation = across, number = None\<rparr>,
       \<lparr>wid = ''2'', word = ''COW'', clue = ''moo'', row = 0, col = 0, orientation = down, number = None\<rparr>,
       \<lparr>wid = ''3'', word = ''TO'', clue = ''prep'', row = 0, col = 2, orientation = down, number = None\<rparr>] 3 3)) 0 2)
     = Some 2 \<and>
   number (r_placedWords (calculateGrid
      [\<lparr>wid = ''1'', word = ''CAT'', clue = ''pet'', row = 0, col = 0, orientation = across, number = None\<rparr>,
       \<lparr>wid = ''2'', word = ''COW'', clue = ''moo'', row = 0, col = 0, orientation = down, number = None\<rparr>,
       \<lparr>wid = ''3'', word = ''TO'', clue = ''prep'', row = 0, col = 2, orientation = down, number = None\<rparr>] 3 3) ! 2)
     = Some 2"
proof -
  let ?ws = "[\<lparr>wid = ''1'', word = ''CAT'', clue = ''pet'', row = 0, col = 0, orientation = across, number = None\<rparr>,
       \<lparr>wid = ''2'', word = ''COW'', clue = ''moo'', row = 0, col = 0, orientation = down, number = None\<rparr>,
       \<lparr>wid = ''3'', word = ''TO'', clue = ''prep'', row = 0, col = 2, orientation = down, number = None\<rparr>]"
  have os: "originCells ?ws 3 3 = [(0, 0), (0, 2)]"
    by code_simp
  have k: "(1::nat) < length (originCells ?ws 3 3)"
    by (simp add: os)
  have i: "(2::nat) < length ?ws"
    by simp
  have e: "(row (?ws ! 2), col (?ws ! 2)) = originCells ?ws 3 3 ! 1"
    by (simp add: os)
  note t = calculateGrid_numbering [of "?ws" 3 3]
  from t have "\<forall>k < length (originCells ?ws 3 3).
      clueNumber (cellAt (r_grid (calculateGrid ?ws 3 3))
                    (fst (originCells ?ws 3 3 ! k)) (snd (originCells ?ws 3 3 ! k))) = Some (int k + 1)"
    by (rule conjunct1)
  with k have "clueNumber (cellAt (r_grid (calculateGrid ?ws 3 3))
                    (fst (originCells ?ws 3 3 ! 1)) (snd (originCells ?ws 3 3 ! 1))) = Some (int 1 + 1)"
    by blast
  then have 1: "clueNumber (cellAt (r_grid (calculateGrid ?ws 3 3)) 0 2) = Some 2"
    by (simp add: os)
  from t have "\<forall>i < length ?ws. \<forall>k < length (originCells ?ws 3 3).
      (row (?ws ! i), col (?ws ! i)) = originCells ?ws 3 3 ! k \<longrightarrow>
        number (r_placedWords (calculateGrid ?ws 3 3) ! i) = Some (int k + 1)"
    by (rule conjunct1 [OF conjunct2])
  with i k e have "number (r_placedWords (calculateGrid ?ws 3 3) ! 2) = Some (int 1 + 1)"
    by blast
  then have 2: "number (r_placedWords (calculateGrid ?ws 3 3) ! 2) = Some 2"
    by simp
  from k 1 2 show ?thesis
    by (intro conjI)
qed

subsection \<open>What calculateGrid writes to its argument\<close>

lemma numberOf_Some_iff: "(\<exists>m. numberOf os n x = Some m) \<longleftrightarrow> x \<in> set os"
  using numberOf_None [of os n x] by (cases "numberOf os n x") auto

lemma origin_in_originCells:
  assumes "i < length pws"
  shows "(row (pws ! i), col (pws ! i)) \<in> set (originCells pws rows cols) \<longleftrightarrow>
           inGrid rows cols (row (pws ! i)) (col (pws ! i))"
proof -
  from assms have "pws ! i \<in> set pws" by simp
  then have "isOriginOf pws (row (pws ! i), col (pws ! i))"
    by (auto simp: isOriginOf_def list_ex_iff)
  then show ?thesis
    by (simp add: originCells_def rowMajor_inGrid)
qed

lemma calculateGrid_writes_only_number:
  "map eraseNumber (r_placedWords (calculateGrid pws rows cols)) = map eraseNumber pws \<and>
   (\<forall>i < length pws.
      if inGrid rows cols (row (pws ! i)) (col (pws ! i))
      then number (r_placedWords (calculateGrid pws rows cols) ! i) \<noteq> None
      else r_placedWords (calculateGrid pws rows cols) ! i = pws ! i)"
proof (intro conjI allI impI)
  show "map eraseNumber (r_placedWords (calculateGrid pws rows cols)) = map eraseNumber pws"
    by (simp add: calculateGrid_closed(1) erase_setNumbers)
next
  fix i
  assume i: "i < length pws"
  show "if inGrid rows cols (row (pws ! i)) (col (pws ! i))
      then number (r_placedWords (calculateGrid pws rows cols) ! i) \<noteq> None
      else r_placedWords (calculateGrid pws rows cols) ! i = pws ! i"
  proof (cases "inGrid rows cols (row (pws ! i)) (col (pws ! i))")
    case True
    then have "(row (pws ! i), col (pws ! i)) \<in> set (originCells pws rows cols)"
      by (simp add: origin_in_originCells [OF i])
    then obtain m where "numberOf (originCells pws rows cols) 1 (row (pws ! i), col (pws ! i)) = Some m"
      using numberOf_Some_iff by metis
    from setNumbers_nth [OF i this] True show ?thesis
      by (simp add: calculateGrid_closed(1))
  next
    case False
    then have "(row (pws ! i), col (pws ! i)) \<notin> set (originCells pws rows cols)"
      by (simp add: origin_in_originCells [OF i])
    then have "numberOf (originCells pws rows cols) 1 (row (pws ! i), col (pws ! i)) = None"
      by (simp add: numberOf_None)
    with i False show ?thesis
      by (simp add: calculateGrid_closed(1) setNumbers_def)
  qed
qed

subsection \<open>generateLayout leaves its argument alone\<close>

lemma retryLoop_store_eq:
  "fst (retryLoop_store rows cols st mem changed) = retryLoop rows cols st (mem unplacedRef) changed \<and>
   snd (retryLoop_store rows cols st mem changed) wordsRef = mem wordsRef"
proof (induction rows cols st mem changed rule: retryLoop_store.induct)
  case (1 rows cols st mem changed)
  show ?case
  proof (cases "changed \<and> mem unplacedRef \<noteq> []")
    case True
    define pass where "pass = layoutPass rows cols st [] False (mem unplacedRef)"
    have eq: "layoutPass rows cols st [] False (mem unplacedRef) = (fst pass, fst (snd pass), snd (snd pass))"
      by (simp add: pass_def)
    have s: "retryLoop_store rows cols st mem changed =
        retryLoop_store rows cols (fst pass) (mem(unplacedRef := fst (snd pass))) (snd (snd pass))"
      using True retryLoop_store.simps [of rows cols st mem changed] by (simp add: Let_def pass_def)
    have r: "retryLoop rows cols st (mem unplacedRef) changed =
        retryLoop rows cols (fst pass) (fst (snd pass)) (snd (snd pass))"
      using True retryLoop_step [OF _ _ eq, of changed] by simp
    have u: "(mem(unplacedRef := fst (snd pass))) unplacedRef = fst (snd pass)"
      "(mem(unplacedRef := fst (snd pass))) wordsRef = mem wordsRef"
      by simp_all
    from "1.IH" [OF True pass_def] show ?thesis
      unfolding s r u .
  next
    case False
    then have "retryLoop_store rows cols st mem changed = (placed st, mem)"
      using retryLoop_store.simps [of rows cols st mem changed] by auto
    with False show ?thesis
      by (simp add: retryLoop_stop)
  qed
qed

lemma generateLayout_store_eq:
  "fst (generateLayout_store mem rows cols) = generateLayout (mem wordsRef) rows cols \<and>
   snd (generateLayout_store mem rows cols) wordsRef = mem wordsRef"
proof (cases "sortWords (mem wordsRef)")
  case Nil
  then show ?thesis
    by (simp add: generateLayout_store_def generateLayout_def)
next
  case (Cons firstWord rest)
  let ?st1 = "placeWordInMap \<lparr> gridMap = Map.empty, placed = [] \<rparr> (firstPlacement firstWord rows cols)"
  let ?mem3 = "(mem(sortedWordsRef := firstWord # rest))(unplacedRef := rest)"
  have g: "generateLayout_store mem rows cols = retryLoop_store rows cols ?st1 ?mem3 True"
    using Cons by (simp add: generateLayout_store_def Let_def firstPlacement_def)
  have u: "?mem3 unplacedRef = rest" "?mem3 wordsRef = mem wordsRef"
    by simp_all
  from retryLoop_store_eq [of rows cols "?st1" "?mem3" True]
  show ?thesis
    unfolding g generateLayout_Cons [OF Cons] u .
qed

text \<open>
  Claim C4, as amended. \<open>calculateGrid\<close> leaves every field of every input placement
  unchanged except \<open>number\<close>: the array it leaves behind equals the input once the numbers
  are erased on both sides. It overwrites \<open>number\<close> of every placement whose origin cell
  lies in the grid, and leaves a placement whose origin is outside the grid untouched.
  \<open>generateLayout\<close> writes to none of its inputs: run on a store of arrays, where the sort
  and the splices are writes to the array they are called on, it returns what the
  by-value function returns and leaves the argument array \<open>words\<close> as it was. The sort
  acts on the copy \<open>[...words]\<close> and the splices on the slice \<open>unplaced\<close>.
\<close>

theorem calls_write_only_number:
  "map eraseNumber (r_placedWords (calculateGrid pws rows cols)) = map eraseNumber pws \<and>
   (\<forall>i < length pws.
      if inGrid rows cols (row (pws ! i)) (col (pws ! i))
      then number (r_placedWords (calculateGrid pws rows cols) ! i) \<noteq> None
      else r_placedWords (calculateGrid pws rows cols) ! i = pws ! i) \<and>
   snd (generateLayout_store mem lrows lcols) wordsRef = mem wordsRef \<and>
   fst (generateLayout_store mem lrows lcols) = generateLayout (mem wordsRef) lrows lcols"
  using calculateGrid_writes_only_number [of pws rows cols] generateLayout_store_eq [of mem lrows lcols]
  by (intro conjI) (rule conjunct1, assumption, rule conjunct2, assumption, simp_all)

theorem calls_write_only_number_witness:
  "(0::nat) < length [\<lparr>wid = ''1'', word = ''CAT'', clue = ''pet'', row = 0, col = 0, orientation = across, number = None\<rparr>] \<and>
   inGrid 3 3 0 0 \<and>
   number (r_placedWords (calculateGrid
     [\<lparr>wid = ''1'', word = ''CAT'', clue = ''pet'', row = 0, col = 0, orientation = across, number = None\<rparr>] 3 3) ! 0)
     \<noteq> None \<and>
   snd (generateLayout_store
          ((\<lambda>_. [])(wordsRef := [\<lparr>wid = ''1'', word = ''AB'', clue = ''x''\<rparr>,
                                  \<lparr>wid = ''2'', word = ''ABC'', clue = ''y''\<rparr>])) 15 15) wordsRef
     = [\<lparr>wid = ''1'', word = ''AB'', clue = ''x''\<rparr>, \<lparr>wid = ''2'', word = ''ABC'', clue = ''y''\<rparr>] \<and>
   fst (generateLayout_store
          ((\<lambda>_. [])(wordsRef := [\<lparr>wid = ''1'', word = ''AB'', clue = ''x''\<rparr>,
                                  \<lparr>wid = ''2'', word = ''ABC'', clue = ''y''\<rparr>])) 15 15)
     = [\<lparr>wid = ''2'', word = ''ABC'', clue = ''y'', row = 7, col = 6, orientation = across, number = None\<rparr>,
        \<lparr>wid = ''1'', word = ''AB'', clue = ''x'', row = 7, col = 6, orientation = down, number = None\<rparr>]"
proof -
  let ?ws = "[\<lparr>wid = ''1'', word = ''CAT'', clue = ''pet'', row = 0, col = 0, orientation = across, number = None\<rparr>]"
  let ?in = "[\<lparr>wid = ''1'', word = ''AB'', clue = ''x''\<rparr>, \<lparr>wid = ''2'', word = ''ABC'', clue = ''y''\<rparr>]"
  let ?mem = "(\<lambda>_. [])(wordsRef := ?in)"
  note t = calls_write_only_number [of "?ws" 3 3 "?mem" 15 15]
  have i: "(0::nat) < length ?ws" by simp
  have g: "inGrid 3 3 0 0" by (simp add: inGrid_def)
  from t have "\<forall>i < length ?ws.
      if inGrid 3 3 (row (?ws ! i)) (col (?ws ! i))
      then number (r_placedWords (calculateGrid ?ws 3 3) ! i) \<noteq> None
      else r_placedWords (calculateGrid ?ws 3 3) ! i = ?ws ! i"
    by (rule conjunct1 [OF conjunct2])
  with i have "if inGrid 3 3 (row (?ws ! 0)) (col (?ws ! 0))
      then number (r_placedWords (calculateGrid ?ws 3 3) ! 0) \<noteq> None
      else r_placedWords (calculateGrid ?ws 3 3) ! 0 = ?ws ! 0"
    by blast
  with g have n: "number (r_placedWords (calculateGrid ?ws 3 3) ! 0) \<noteq> None"
    by simp
  have m: "?mem wordsRef = ?in"
    by simp
  from t have "snd (generateLayout_store ?mem 15 15) wordsRef = ?mem wordsRef"
    by (rule conjunct1 [OF conjunct2 [OF conjunct2]])
  then have a: "snd (generateLayout_store ?mem 15 15) wordsRef = ?in"
    unfolding m .
  from t have "fst (generateLayout_store ?mem 15 15) = generateLayout (?mem wordsRef) 15 15"
    by (rule conjunct2 [OF conjunct2 [OF conjunct2]])
  moreover have "generateLayout ?in 15 15 =
      [\<lparr>wid = ''2'', word = ''ABC'', clue = ''y'', row = 7, col = 6, orientation = across, number = None\<rparr>,
       \<lparr>wid = ''1'', word = ''AB'', clue = ''x'', row = 7, col = 6, orientation = down, number = None\<rparr>]"
    by code_simp
  ultimately have b: "fst (generateLayout_store ?mem 15 15) =
      [\<lparr>wid = ''2'', word = ''ABC'', clue = ''y'', row = 7, col = 6, orientation = across, number = None\<rparr>,
       \<lparr>wid = ''1'', word = ''AB'', clue = ''x'', row = 7, col = 6, orientation = down, number = None\<rparr>]"
    unfolding m by simp
  from i g n a b show ?thesis
    by (intro conjI)
qed

text \<open>
  Claim C4 as stated fails: \<open>calculateGrid\<close> writes the field \<open>number\<close> of its input
  placements. Called on the single placement CAT at the origin of a 3 by 3 grid, whose
  number is unset, it leaves the array holding the same placement with number 1.
\<close>

theorem calculateGrid_writes_number:
  "r_placedWords (calculateGrid
     [\<lparr>wid = ''1'', word = ''CAT'', clue = ''pet'', row = 0, col = 0, orientation = across, number = None\<rparr>] 3 3)
     = [\<lparr>wid = ''1'', word = ''CAT'', clue = ''pet'', row = 0, col = 0, orientation = across, number = Some 1\<rparr>] \<and>
   r_placedWords (calculateGrid
     [\<lparr>wid = ''1'', word = ''CAT'', clue = ''pet'', row = 0, col = 0, orientation = across, number = None\<rparr>] 3 3)
     \<noteq> [\<lparr>wid = ''1'', word = ''CAT'', clue = ''pet'', row = 0, col = 0, orientation = across, number = None\<rparr>]"
proof -
  have "r_placedWords (calculateGrid
     [\<lparr>wid = ''1'', word = ''CAT'', clue = ''pet'', row = 0, col = 0, orientation = across, number = None\<rparr>] 3 3)
     = [\<lparr>wid = ''1'', word = ''CAT'', clue = ''pet'', row = 0, col = 0, orientation = across, number = Some 1\<rparr>]"
    by code_simp
  then show ?thesis by simp
qed

subsection \<open>The result does not depend on the numbers written\<close>

lemma placeLetter_erase: "placeLetter rows cols (eraseNumber pw) = placeLetter rows cols pw"
  by (rule ext, rule ext) (simp add: placeLetter_def eraseNumber_def Let_def)

lemma placeLetters_erase:
  "placeLetters rows cols (map eraseNumber pws) g = placeLetters rows cols pws g"
  unfolding placeLetters_def
  by (induction pws arbitrary: g) (simp_all add: placeLetter_erase, simp add: eraseNumber_def)

lemma lettersGrid_erase:
  assumes "map eraseNumber pws' = map eraseNumber pws"
  shows "lettersGrid pws' rows cols = lettersGrid pws rows cols"
proof -
  have "lettersGrid ps rows cols = placeLetters rows cols (map eraseNumber ps) (createEmptyGrid rows cols)"
    for ps :: "'a PlacedWord list"
    by (simp add: lettersGrid_def placeLetters_erase)
  with assms show ?thesis by simp
qed

lemma originCells_erase:
  assumes "map eraseNumber pws' = map eraseNumber pws"
  shows "originCells pws' rows cols = originCells pws rows cols"
  by (simp add: originCells_def isOriginOf_erase [OF assms])

lemma grid_ext:
  assumes "gridShape rows cols g" "gridShape rows cols h"
    and "\<And>r c. inGrid rows cols r c \<Longrightarrow> cellAt g r c = cellAt h r c"
  shows "g = h"
proof (rule nth_equalityI)
  show "length g = length h"
    using assms(1,2) by (simp add: gridShape_def)
next
  fix i assume i: "i < length g"
  then have ih: "i < length h" and ir: "int i < rows"
    using assms(1,2) by (auto simp: gridShape_def)
  have lg: "length (g ! i) = nat cols" and lh: "length (h ! i) = nat cols"
    using assms(1,2) i ih by (auto simp: gridShape_def)
  show "g ! i = h ! i"
  proof (rule nth_equalityI)
    show "length (g ! i) = length (h ! i)"
      by (simp add: lg lh)
  next
    fix j assume "j < length (g ! i)"
    with lg ir have "inGrid rows cols (int i) (int j)"
      by (simp add: inGrid_def)
    from assms(3) [OF this] show "g ! i ! j = h ! i ! j"
      by (simp add: cellAt_def)
  qed
qed

lemma gridShape_calculateGrid: "gridShape rows cols (r_grid (calculateGrid pws rows cols))"
proof -
  let ?s0 = "\<lparr> currentNumber = 1, clues = [], ngrid = lettersGrid pws rows cols, nplaced = pws \<rparr>"
  have g: "\<forall>x \<in> set (rowMajor rows cols). inGrid rows cols (fst x) (snd x)"
    using rowMajor_inGrid by auto
  have sh: "gridShape rows cols (ngrid ?s0)"
    by (simp add: gridShape_lettersGrid)
  from numbering_fold [OF distinct_rowMajor g sh, folded numberCells_rowMajor]
  have "gridShape rows cols (ngrid (numberCells rows cols ?s0))"
    by simp
  then show ?thesis
    by (simp add: calculateGrid_def Let_def lettersGrid_def)
qed

lemma calculateGrid_erase:
  assumes "map eraseNumber pws' = map eraseNumber pws"
  shows "r_grid (calculateGrid pws' rows cols) = r_grid (calculateGrid pws rows cols)"
    and "r_clues (calculateGrid pws' rows cols) = r_clues (calculateGrid pws rows cols)"
proof -
  show "r_grid (calculateGrid pws' rows cols) = r_grid (calculateGrid pws rows cols)"
  proof (rule grid_ext [OF gridShape_calculateGrid gridShape_calculateGrid])
    fix r c assume "inGrid rows cols r c"
    then show "cellAt (r_grid (calculateGrid pws' rows cols)) r c =
               cellAt (r_grid (calculateGrid pws rows cols)) r c"
      by (simp add: calculateGrid_closed(3) originCells_erase [OF assms] lettersGrid_erase [OF assms])
  qed
  show "r_clues (calculateGrid pws' rows cols) = r_clues (calculateGrid pws rows cols)"
    unfolding calculateGrid_closed(2) originCells_erase [OF assms]
    by (rule numberedClues_erase [OF assms])
qed

lemma setNumbers_idem: "setNumbers os n (setNumbers os n pws) = setNumbers os n pws"
  by (auto simp: setNumbers_def split: option.splits)

text \<open>
  Claim C9. \<open>calculateGrid\<close> is a function of \<open>placements\<close>, \<open>rows\<close> and \<open>cols\<close>, and the board
  and the clue list it returns do not depend on the \<open>number\<close> fields of the placements,
  the one thing a call writes. So a second call, on the array as the first call left it,
  returns the same board (letters, collision flags, clue numbers, word ids) and the same
  clue list, and leaves the array as it found it.
\<close>

theorem calculateGrid_deterministic:
  "(map eraseNumber pws' = map eraseNumber pws \<longrightarrow>
      r_grid (calculateGrid pws' rows cols) = r_grid (calculateGrid pws rows cols) \<and>
      r_clues (calculateGrid pws' rows cols) = r_clues (calculateGrid pws rows cols)) \<and>
   r_grid (calculateGrid (r_placedWords (calculateGrid pws rows cols)) rows cols)
     = r_grid (calculateGrid pws rows cols) \<and>
   r_clues (calculateGrid (r_placedWords (calculateGrid pws rows cols)) rows cols)
     = r_clues (calculateGrid pws rows cols) \<and>
   r_placedWords (calculateGrid (r_placedWords (calculateGrid pws rows cols)) rows cols)
     = r_placedWords (calculateGrid pws rows cols)"
proof -
  have e: "map eraseNumber (r_placedWords (calculateGrid pws rows cols)) = map eraseNumber pws"
    by (simp add: calculateGrid_closed(1) erase_setNumbers)
  have "r_placedWords (calculateGrid (r_placedWords (calculateGrid pws rows cols)) rows cols)
     = r_placedWords (calculateGrid pws rows cols)"
    unfolding calculateGrid_closed(1) [of "r_placedWords (calculateGrid pws rows cols)"]
      originCells_erase [OF e]
    by (simp add: calculateGrid_closed(1) setNumbers_idem)
  with calculateGrid_erase [OF e] calculateGrid_erase [of pws' pws rows cols]
  show ?thesis by blast
qed

theorem calculateGrid_deterministic_witness:
  "r_grid (calculateGrid (r_placedWords (calculateGrid
      [\<lparr>wid = ''1'', word = ''CAT'', clue = ''pet'', row = 0, col = 0, orientation = across, number = None\<rparr>,
       \<lparr>wid = ''2'', word = ''DOG'', clue = ''woof'', row = 0, col = 0, orientation = down, number = None\<rparr>] 3 3)) 3 3)
     = r_grid (calculateGrid
      [\<lparr>wid = ''1'', word = ''CAT'', clue = ''pet'', row = 0, col = 0, orientation = across, number = None\<rparr>,
       \<lparr>wid = ''2'', word = ''DOG'', clue = ''woof'', row = 0, col = 0, orientation = down, number = None\<rparr>] 3 3) \<and>
   r_clues (calculateGrid (r_placedWords (calculateGrid
      [\<lparr>wid = ''1'', word = ''CAT'', clue = ''pet'', row = 0, col = 0, orientation = across, number = None\<rparr>,
       \<lparr>wid = ''2'', word = ''DOG'', clue = ''woof'', row = 0, col = 0, orientation = down, number = None\<rparr>] 3 3)) 3 3)
     = r_clues (calculateGrid
      [\<lparr>wid = ''1'', word = ''CAT'', clue = ''pet'', row = 0, col = 0, orientation = across, number = None\<rparr>,
       \<lparr>wid = ''2'', word = ''DOG'', clue = ''woof'', row = 0, col = 0, orientation = down, number = None\<rparr>] 3 3)"
proof -
  note t = calculateGrid_deterministic
      [of "[]" "[\<lparr>wid = ''1'', word = ''CAT'', clue = ''pet'', row = 0, col = 0, orientation = across, number = None\<rparr>,
       \<lparr>wid = ''2'', word = ''DOG'', clue = ''woof'', row = 0, col = 0, orientation = down, number = None\<rparr>]" 3 3]
  from t [THEN conjunct2, THEN conjunct1] t [THEN conjunct2, THEN conjunct2, THEN conjunct1]
  show ?thesis
    by (intro conjI)
qed

end
